theory Spec2Isabelle
  imports Main
begin

section \<open>JavaScript values used by the two components\<close>

text \<open>
  A JavaScript \<open>number\<close> as far as the code looks at it: the tracker only tests numbers for
  truthiness and compares them with \<open>!==\<close>. Times and execution counts are integers, or
  \<open>NaN\<close> (what \<open>new Date(s).getTime()\<close> gives for a date string that does not parse).
\<close>

datatype number = Num int | NaN

fun truthy_number :: "number \<Rightarrow> bool" where
  "truthy_number (Num n) = (n \<noteq> 0)"
| "truthy_number NaN = False"

text \<open>\<open>a === b\<close> on numbers: \<open>NaN\<close> is equal to nothing, itself included.\<close>

fun strict_eq_number :: "number \<Rightarrow> number \<Rightarrow> bool" where
  "strict_eq_number (Num a) (Num b) = (a = b)"
| "strict_eq_number _ _ = False"

text \<open>An optional field of a \<open>Partial\<close> object: \<open>None\<close> is \<open>undefined\<close>, which is falsy.\<close>

definition truthy_field :: "number option \<Rightarrow> bool" where
  "truthy_field v = (case v of None \<Rightarrow> False | Some n \<Rightarrow> truthy_number n)"

text \<open>\<open>v !== n\<close> for an optional field \<open>v\<close> and a number \<open>n\<close>.\<close>

definition strict_neq_field :: "number option \<Rightarrow> number \<Rightarrow> bool" where
  "strict_neq_field v n = (case v of None \<Rightarrow> True | Some m \<Rightarrow> \<not> strict_eq_number m n)"

text \<open>An optional string is truthy when it is defined and not empty.\<close>

definition truthy_string :: "string option \<Rightarrow> bool" where
  "truthy_string v = (case v of None \<Rightarrow> False | Some s \<Rightarrow> s \<noteq> [])"

text \<open>How a promise settles.\<close>

datatype Settled = Fulfilled | Rejected

text \<open>\<open>p.then(noop, noop)\<close>, with \<open>noop\<close> the function that does nothing: fulfilled however
  \<open>p\<close> settles.\<close>

fun then_noop_noop :: "Settled \<Rightarrow> Settled" where
  "then_noop_noop Fulfilled = Fulfilled"
| "then_noop_noop Rejected = Fulfilled"

section \<open>Notebooks, cells, kernels and messages\<close>

record TextDocument =
  uri :: string
  isUntitled :: bool

record NotebookDocument =
  uri :: string
  isUntitled :: bool

text \<open>
  A \<open>NotebookCell\<close> of the host API: its position in the notebook, its own text document
  and the notebook that holds it. The two documents are different objects, each with an
  \<open>isUntitled\<close> flag and a \<open>uri\<close> of its own. The code keys its in-memory map by the cell
  object; here a cell is its value, and its index is taken to stay what it is over the time a
  theorem covers.
\<close>

record NotebookCell =
  index :: nat
  document :: TextDocument
  notebook :: NotebookDocument

text \<open>
  Modelled from the spec: \<open>isRemoteConnection\<close> and the connection metadata types are declared
  in \<open>kernels/types\<close>, outside the sources at hand. The spec speaks of remote-kernel executions
  keyed by server id, so a connection is either local or remote, and a remote one carries its
  \<open>serverId\<close>.
\<close>

datatype KernelConnectionMetadata = LocalConnection | RemoteConnection (serverId: string)

fun isRemoteConnection :: "KernelConnectionMetadata \<Rightarrow> bool" where
  "isRemoteConnection (RemoteConnection _) = True"
| "isRemoteConnection LocalConnection = False"

record IKernelConnection =
  kernel_id :: string

record IKernelSession =
  kernel :: "IKernelConnection option"

record IKernel =
  kernelConnectionMetadata :: KernelConnectionMetadata
  session :: "IKernelSession option"

datatype Direction = send | recv

text \<open>The \<open>execution_count\<close> member of a message's content: absent, present but not a number
  (\<open>null\<close> in an aborted reply), or a number.\<close>

datatype ContentField = Absent | NotANumber | IsNumber number

text \<open>
  The part of \<open>IAnyMessageArgs\<close> the handler reads. \<open>metadata_cellId\<close> is \<open>Some c\<close> exactly when
  the message's metadata is an object with a string member \<open>cellId\<close> equal to \<open>c\<close>.
  \<open>header_date\<close> is what \<open>new Date(msg.header.date).getTime()\<close> evaluates to, \<open>None\<close> when
  evaluating it throws. \<open>parent_header_msg_id\<close> is the result of \<open>getParentHeaderMsgId\<close>
  (a helper of \<open>cellExecutionMessageHandler\<close>, outside the sources at hand), \<open>None\<close> for
  \<open>undefined\<close>.
\<close>

record AnyMessageArgs =
  direction :: Direction
  header_msg_type :: string
  header_msg_id :: string
  header_date :: "number option"
  metadata_cellId :: "string option"
  parent_header_msg_id :: "string option"
  content_execution_count :: ContentField

section \<open>The last cell execution tracker\<close>

text \<open>\<open>Partial CellExecutionInfo\<close>: every member may be \<open>undefined\<close>.\<close>

record CellExecutionInfo =
  msg_id :: "string option"
  kernelId :: "string option"
  cellIndex :: "nat option"
  startTime :: "number option"
  executionCount :: "number option"

text \<open>
  The workspace memento of the host: a key/value store. Under a state key the tracker keeps
  an object that maps a notebook's URI string to its record. \<open>get(key, default)\<close> returns the
  default for a key with no value; \<open>update(key, v)\<close> stores \<open>v\<close> (\<open>undefined\<close> removes the key)
  and returns a promise for the write to storage. What later \<open>get\<close> calls observe is the
  value last given to \<open>update\<close>; how the returned promise settles is up to the host.
\<close>

type_synonym CellState = "string \<rightharpoonup> CellExecutionInfo"

type_synonym Memento = "string \<rightharpoonup> CellState"

definition Memento_get :: "Memento \<Rightarrow> string \<Rightarrow> CellState \<Rightarrow> CellState" where
  "Memento_get m key dflt = (case m key of None \<Rightarrow> dflt | Some v \<Rightarrow> v)"

definition Memento_update :: "Memento \<Rightarrow> string \<Rightarrow> CellState option \<Rightarrow> Memento" where
  "Memento_update m key v = m(key := v)"

definition getStateKey :: "string \<Rightarrow> string" where
  "getStateKey sid = ''LAST_EXECUTED_CELL_'' @ sid"

text \<open>
  The callbacks that the three writers hang on \<open>chainedPromises\<close> with \<open>finally\<close>. Each closes
  over the state key(s) computed at the call, the cell and (for \<open>trackLastExecution\<close>) the
  record to store. The callback reads the cell and the record when it runs; they are taken to
  be then what they were at the call (the handler that could change the record is disposed
  of at the call).
\<close>

datatype Task =
  DeleteTask string NotebookCell
| TrackTask string NotebookCell CellExecutionInfo
| RemoveTask "string list"

text \<open>
  What running a callback does: whether it threw, the memento keys it called \<open>update\<close> on, the
  keys whose update promises the promise it returned waits for, and the memento afterwards.
\<close>

record Outcome =
  threw :: bool
  issued :: "string list"
  awaited :: "string list"
  after :: Memento

text \<open>
  The callback of \<open>deleteTrackedCellExecution\<close>. Reading \<open>.cellIndex\<close> of
  \<open>currentState[notebookId]\<close> throws a TypeError when the notebook has no entry.
\<close>

definition run_delete :: "string \<Rightarrow> NotebookCell \<Rightarrow> Memento \<Rightarrow> Outcome" where
  "run_delete key cell m =
     (let notebookId = NotebookDocument.uri (notebook cell);
          currentState = Memento_get m key Map.empty
      in case currentState notebookId of
           None \<Rightarrow> \<lparr>threw = True, issued = [], awaited = [], after = m\<rparr>
         | Some entry \<Rightarrow>
             if cellIndex entry = Some (index cell)
             then \<lparr>threw = False, issued = [key], awaited = [key],
                   after = Memento_update m key (Some (currentState(notebookId := None)))\<rparr>
             else \<lparr>threw = False, issued = [], awaited = [], after = m\<rparr>)"

text \<open>The callback of \<open>trackLastExecution\<close>.\<close>

definition run_track :: "string \<Rightarrow> NotebookCell \<Rightarrow> CellExecutionInfo \<Rightarrow> Memento \<Rightarrow> Outcome" where
  "run_track key cell info m =
     (let notebookId = NotebookDocument.uri (notebook cell);
          currentState = Memento_get m key Map.empty
      in \<lparr>threw = False, issued = [key], awaited = [key],
          after = Memento_update m key (Some (currentState(notebookId \<mapsto> info)))\<rparr>)"

text \<open>The callback of \<open>onDidRemoveServerUris\<close>: one update per removed server, all awaited
  by \<open>Promise.all\<close>.\<close>

definition run_remove :: "string list \<Rightarrow> Memento \<Rightarrow> Outcome" where
  "run_remove keys m =
     \<lparr>threw = False, issued = keys, awaited = keys,
      after = foldl (\<lambda>acc key. Memento_update acc key None) m keys\<rparr>"

fun run_task :: "Task \<Rightarrow> Memento \<Rightarrow> Outcome" where
  "run_task (DeleteTask key cell) m = run_delete key cell m"
| "run_task (TrackTask key cell info) m = run_track key cell info m"
| "run_task (RemoveTask keys) m = run_remove keys m"

text \<open>
  The closure made by one call of \<open>trackCellExecution\<close> that got past its guard: the cell and
  kernel it closes over, whether its listener of \<open>kernel.onStarted\<close> is registered, and whether
  \<open>anyMessageHandler\<close> is connected to the kernel's \<open>anyMessage\<close> signal.
\<close>

record Handler =
  h_cell :: NotebookCell
  h_kernel :: IKernel
  listening :: bool
  connected :: bool

text \<open>
  The tracker. \<open>executedCells\<close> is the in-memory map from a cell to its record;
  \<open>chainedPromises\<close> holds the callbacks chained so far that have not run yet, oldest first,
  and \<open>chainRejected\<close> tells whether the promise they hang on is rejected.
\<close>

record Tracker =
  executedCells :: "NotebookCell \<rightharpoonup> CellExecutionInfo"
  workspaceMemento :: Memento
  chainedPromises :: "Task list"
  chainRejected :: bool
  handlers :: "Handler list"

definition getLastTrackedCellExecution ::
  "NotebookDocument \<Rightarrow> IKernel \<Rightarrow> Tracker \<Rightarrow> CellExecutionInfo option" where
  "getLastTrackedCellExecution nb k s =
     (if NotebookDocument.isUntitled nb then None
      else if \<not> isRemoteConnection (kernelConnectionMetadata k) then None
      else Memento_get (workspaceMemento s)
             (getStateKey (serverId (kernelConnectionMetadata k))) Map.empty
             (NotebookDocument.uri nb))"

text \<open>\<open>this.chainedPromises = this.chainedPromises.finally(callback)\<close>.\<close>

definition chain :: "Task \<Rightarrow> Tracker \<Rightarrow> Tracker" where
  "chain t s = s\<lparr>chainedPromises := chainedPromises s @ [t]\<rparr>"

definition deleteTrackedCellExecution :: "NotebookCell \<Rightarrow> IKernel \<Rightarrow> Tracker \<Rightarrow> Tracker" where
  "deleteTrackedCellExecution cell k s =
     (if NotebookDocument.isUntitled (notebook cell) then s
      else if \<not> isRemoteConnection (kernelConnectionMetadata k) then s
      else chain (DeleteTask (getStateKey (serverId (kernelConnectionMetadata k))) cell) s)"

definition trackLastExecution ::
  "NotebookCell \<Rightarrow> IKernel \<Rightarrow> CellExecutionInfo \<Rightarrow> Tracker \<Rightarrow> Tracker" where
  "trackLastExecution cell k info s =
     (if \<not> truthy_field (executionCount info) \<and> \<not> truthy_string (msg_id info)
         \<and> \<not> truthy_field (startTime info) then s
      else if \<not> isRemoteConnection (kernelConnectionMetadata k) then s
      else chain (TrackTask (getStateKey (serverId (kernelConnectionMetadata k))) cell info) s)"

text \<open>An entry of the server storage: the handler reads its \<open>serverId\<close> only.\<close>

record IJupyterServerUriEntry =
  entry_serverId :: string

definition onDidRemoveServerUris :: "IJupyterServerUriEntry list \<Rightarrow> Tracker \<Rightarrow> Tracker" where
  "onDidRemoveServerUris removedServers s =
     chain (RemoveTask (map (\<lambda>item. getStateKey (entry_serverId item)) removedServers)) s"

text \<open>
  The promise a \<open>finally\<close> callback hangs on settles, the callback runs, and the promise that
  \<open>finally\<close> returned is rejected when the callback threw and otherwise settles as its
  predecessor did, once every promise the callback returned has settled. \<open>settle\<close> runs the
  pending callbacks in the order they were chained.
\<close>

definition run_next :: "Task \<Rightarrow> Tracker \<Rightarrow> Tracker" where
  "run_next t s =
     (let out = run_task t (workspaceMemento s)
      in s\<lparr>workspaceMemento := after out,
           chainRejected := (chainRejected s \<or> threw out)\<rparr>)"

fun run_all :: "Task list \<Rightarrow> Tracker \<Rightarrow> Tracker" where
  "run_all [] s = s"
| "run_all (t # ts) s = run_all ts (run_next t s)"

definition settle :: "Tracker \<Rightarrow> Tracker" where
  "settle s = (run_all (chainedPromises s) s)\<lparr>chainedPromises := []\<rparr>"

subsection \<open>Tracking one execution\<close>

text \<open>\<open>kernel.session?.kernel?.id || ''\<close>.\<close>

definition kernelIdOf :: "IKernel \<Rightarrow> string" where
  "kernelIdOf k =
     (case session k of
        None \<Rightarrow> []
      | Some sess \<Rightarrow> (case kernel sess of None \<Rightarrow> [] | Some conn \<Rightarrow> kernel_id conn))"

text \<open>The \<open>send\<close> branch of \<open>anyMessageHandler\<close>: an execute request for this cell starts a
  fresh record.\<close>

definition handle_send :: "NotebookCell \<Rightarrow> IKernel \<Rightarrow> AnyMessageArgs \<Rightarrow> Tracker \<Rightarrow> Tracker" where
  "handle_send cell k msg s =
     (if header_msg_type msg = ''execute_request''
         \<and> metadata_cellId msg = Some (TextDocument.uri (document cell))
      then s\<lparr>executedCells := (executedCells s)(cell \<mapsto>
               \<lparr>msg_id = Some (header_msg_id msg), kernelId = Some (kernelIdOf k),
                cellIndex = Some (index cell), startTime = None, executionCount = None\<rparr>)\<rparr>
      else s)"

text \<open>
  The start time written by the first matching message: the clock's \<open>now\<close>, replaced by the
  message's own date unless reading that date throws.
\<close>

definition startTimeOf :: "int \<Rightarrow> AnyMessageArgs \<Rightarrow> number" where
  "startTimeOf now msg = (case header_date msg of None \<Rightarrow> Num now | Some d \<Rightarrow> d)"

text \<open>
  The \<open>recv\<close> branch. The result pairs the tracker with a flag telling whether the handler
  disposed of its subscriptions (\<open>disposeAllDisposables(disposables)\<close>).
\<close>

definition handle_recv ::
  "NotebookCell \<Rightarrow> IKernel \<Rightarrow> int \<Rightarrow> AnyMessageArgs \<Rightarrow> Tracker \<Rightarrow> bool \<times> Tracker" where
  "handle_recv cell k now msg s =
     (case executedCells s cell of
        None \<Rightarrow> (False, s)
      | Some info \<Rightarrow>
          if truthy_string (msg_id info) \<and> parent_header_msg_id msg = msg_id info then
            let info1 = (if \<not> truthy_field (startTime info)
                         then info\<lparr>startTime := Some (startTimeOf now msg)\<rparr> else info);
                s1 = (if \<not> truthy_field (startTime info)
                      then s\<lparr>executedCells := (executedCells s)(cell \<mapsto> info1)\<rparr> else s)
            in (case content_execution_count msg of
                  IsNumber c \<Rightarrow>
                    if \<not> truthy_field (executionCount info1)
                       \<and> strict_neq_field (executionCount info1) c
                    then
                      let info2 = info1\<lparr>executionCount := Some c\<rparr>;
                          s2 = s1\<lparr>executedCells := (executedCells s1)(cell \<mapsto> info2)\<rparr>
                      in (True, trackLastExecution cell k info2 s2)
                    else (False, s1)
                | _ \<Rightarrow> (False, s1))
          else (False, s))"

definition anyMessageHandler ::
  "NotebookCell \<Rightarrow> IKernel \<Rightarrow> int \<Rightarrow> AnyMessageArgs \<Rightarrow> Tracker \<Rightarrow> bool \<times> Tracker" where
  "anyMessageHandler cell k now msg s =
     (case direction msg of
        send \<Rightarrow> (False, handle_send cell k msg s)
      | recv \<Rightarrow> handle_recv cell k now msg s)"

text \<open>\<open>hookUpSession\<close>: connects the handler when the kernel has a session with a kernel.\<close>

definition hasSessionKernel :: "IKernel \<Rightarrow> bool" where
  "hasSessionKernel k = (case session k of None \<Rightarrow> False | Some sess \<Rightarrow> kernel sess \<noteq> None)"

definition hookUpSession :: "Handler \<Rightarrow> Handler" where
  "hookUpSession h = (if \<not> hasSessionKernel (h_kernel h) then h else h\<lparr>connected := True\<rparr>)"

definition trackCellExecution :: "NotebookCell \<Rightarrow> IKernel \<Rightarrow> Tracker \<Rightarrow> Tracker" where
  "trackCellExecution cell k s =
     (if \<not> isRemoteConnection (kernelConnectionMetadata k)
         \<or> TextDocument.isUntitled (document cell) then s
      else
        let h = \<lparr>h_cell = cell, h_kernel = k, listening = True, connected = False\<rparr>
        in s\<lparr>executedCells := (executedCells s)(cell := None),
             handlers := handlers s @ [if session k \<noteq> None then hookUpSession h else h]\<rparr>)"

text \<open>
  Modelled from the spec: \<open>disposeAllDisposables\<close> is a helper of \<open>platform/common/helpers\<close>,
  outside the sources at hand; the spec counts disposable event subscriptions among the host's
  primitives. It disposes of what the array holds. The only thing \<open>trackCellExecution\<close> pushes
  into its array is the disposable that disconnects the handler from the signal. The listener
  of \<open>kernel.onStarted\<close> is not in it: the call \<open>kernel.onStarted(() => hookUpSession(),
  disposables)\<close> hands the array over as the listener's \<open>this\<close> argument (the call in
  \<open>activate\<close> shows the three-argument form that registers a listener in an array). So
  disposing leaves the closure listening.
\<close>

definition disposeAllDisposables :: "Handler \<Rightarrow> Handler" where
  "disposeAllDisposables h = h\<lparr>connected := False\<rparr>"

text \<open>
  The kernel of the \<open>i\<close>-th closure fires \<open>onStarted\<close>, its session being \<open>sess\<close> now: the
  closure's listener runs \<open>hookUpSession\<close>.
\<close>

definition onStarted :: "nat \<Rightarrow> IKernelSession \<Rightarrow> Tracker \<Rightarrow> Tracker" where
  "onStarted i sess s =
     (if i < length (handlers s) \<and> listening (handlers s ! i) then
        let h = handlers s ! i
        in s\<lparr>handlers := (handlers s)
               [i := hookUpSession (h\<lparr>h_kernel := (h_kernel h)\<lparr>session := Some sess\<rparr>\<rparr>)]\<rparr>
      else s)"

text \<open>
  The kernel's \<open>anyMessage\<close> signal emits a message at clock time \<open>now\<close> to the \<open>i\<close>-th closure:
  nothing happens unless its handler is connected.
\<close>

definition deliver :: "nat \<Rightarrow> int \<Rightarrow> AnyMessageArgs \<Rightarrow> Tracker \<Rightarrow> Tracker" where
  "deliver i now msg s =
     (if i < length (handlers s) \<and> connected (handlers s ! i) then
        let h = handlers s ! i;
            r = anyMessageHandler (h_cell h) (h_kernel h) now msg s
        in if fst r then (snd r)\<lparr>handlers := (handlers (snd r))[i := disposeAllDisposables h]\<rparr>
           else snd r
      else s)"

text \<open>A run of messages, each with the clock's reading when it arrives.\<close>

fun deliver_all :: "nat \<Rightarrow> (int \<times> AnyMessageArgs) list \<Rightarrow> Tracker \<Rightarrow> Tracker" where
  "deliver_all i [] s = s"
| "deliver_all i (m # ms) s = deliver_all i ms (deliver i (fst m) (snd m) s)"






section \<open>The registry of URI providers\<close>

text \<open>
  A JavaScript \<open>Map\<close> keeps its entries in insertion order; \<open>set\<close> on a key that is present
  replaces the value where it stands.
\<close>

fun Map_set :: "'k \<Rightarrow> 'v \<Rightarrow> ('k \<times> 'v) list \<Rightarrow> ('k \<times> 'v) list" where
  "Map_set k v [] = [(k, v)]"
| "Map_set k v (p # ps) = (if fst p = k then (k, v) # ps else p # Map_set k v ps)"

definition Map_has :: "'k \<Rightarrow> ('k \<times> 'v) list \<Rightarrow> bool" where
  "Map_has k m = (k \<in> set (map fst m))"

definition Map_get :: "('k \<times> 'v) list \<Rightarrow> 'k \<Rightarrow> 'v option" where
  "Map_get m k = map_of m k"

definition Map_delete :: "'k \<Rightarrow> ('k \<times> 'v) list \<Rightarrow> ('k \<times> 'v) list" where
  "Map_delete k m = filter (\<lambda>p. fst p \<noteq> k) m"

text \<open>
  What the registry throws or rejects with. \<open>ProviderFailed\<close> stands for a rejection that
  comes out of a call of one of the provider's own members, \<open>LoadFailed\<close> for a
  rejection of the promise of the load step. The error for an invalid handle carries the
  provider id, the handle and the owning extension as the mapping has it; the server id that
  the source also passes is computed by helpers of \<open>jupyterUtils\<close>, outside the sources at
  hand, and is left out.
\<close>

datatype error =
  ProviderAlreadyExists string
| UnknownServerUri
| InvalidRemoteJupyterServerUriHandleError string string "string option"
| ProviderFailed string
| LoadFailed

record IJupyterServerUri =
  baseUrl :: string
  token :: string

text \<open>
  An entry of the host's quick pick. The wrapper hands out entries that carry the provider's
  own entry in a member \<open>original\<close>.
\<close>

datatype QuickPickItem =
  QuickPickItem (label: string) (description: "string option") (original: "QuickPickItem option")

text \<open>
  A provider of another extension, as far as the registry and the wrapper call it. An optional
  member is \<open>None\<close> for a provider without it. \<open>getHandles\<close> and \<open>getQuickPickEntryItems\<close>
  tell how a call settles; \<open>getServerUri\<close> and \<open>removeHandle\<close> tell it for each handle, and
  \<open>handleQuickPick\<close> for each entry and flag. \<open>handleQuickPick\<close> is fulfilled with a handle, with
  the string \<open>back\<close> or with \<open>undefined\<close>: a string or nothing.
\<close>

record IJupyterUriProvider =
  provider_id :: string
  getHandles :: "(error + string list) option"
  getServerUri :: "string \<Rightarrow> error + IJupyterServerUri"
  getQuickPickEntryItems :: "(error + QuickPickItem list) option"
  handleQuickPick :: "(QuickPickItem \<Rightarrow> bool \<Rightarrow> error + string option) option"
  removeHandle :: "(string \<Rightarrow> error + unit) option"

record JupyterUriProviderWrapper =
  provider :: IJupyterUriProvider
  wrapper_extensionId :: string

text \<open>
  The wrapper has a member \<open>getHandles\<close> or \<open>removeHandle\<close> exactly if the provider has: its
  constructor sets them to functions that call the provider's.
\<close>

definition wrapper_getHandles :: "JupyterUriProviderWrapper \<Rightarrow> (error + string list) option" where
  "wrapper_getHandles w =
     (case getHandles (provider w) of None \<Rightarrow> None | Some settles \<Rightarrow> Some settles)"

definition wrapper_removeHandle ::
  "JupyterUriProviderWrapper \<Rightarrow> (string \<Rightarrow> error + unit) option" where
  "wrapper_removeHandle w =
     (case removeHandle (provider w) of
        None \<Rightarrow> None
      | Some remove \<Rightarrow> Some (\<lambda>handle. remove handle))"

text \<open>
  \<open>getQuickPickEntryItems\<close>: no entries for a provider without that member; otherwise the
  provider's entries, each with a new description and with the provider's entry as
  \<open>original\<close>. The description is made by \<open>localize.DataScience.uriProviderDescriptionFormat\<close>
  from \<open>q.description || ''\<close> and the extension id; that function is outside the sources at
  hand and enters as the parameter \<open>format\<close>.
\<close>

definition wrapper_getQuickPickEntryItems ::
  "(string \<Rightarrow> string \<Rightarrow> string) \<Rightarrow> JupyterUriProviderWrapper \<Rightarrow> error + QuickPickItem list" where
  "wrapper_getQuickPickEntryItems format w =
     (case getQuickPickEntryItems (provider w) of
        None \<Rightarrow> Inr []
      | Some (Inl e) \<Rightarrow> Inl e
      | Some (Inr items) \<Rightarrow>
          Inr (map (\<lambda>q. QuickPickItem (label q)
                          (Some (format (case description q of None \<Rightarrow> [] | Some d \<Rightarrow> d)
                                   (wrapper_extensionId w)))
                          (Some q))
                 items))"

text \<open>
  \<open>handleQuickPick\<close>: \<open>undefined\<close> for a provider without that member; otherwise the provider's
  answer, asked about the entry's \<open>original\<close> when it has one and about the entry itself when
  it has none.
\<close>

definition wrapper_handleQuickPick ::
  "JupyterUriProviderWrapper \<Rightarrow> QuickPickItem \<Rightarrow> bool \<Rightarrow> error + string option" where
  "wrapper_handleQuickPick w item back =
     (case handleQuickPick (provider w) of
        None \<Rightarrow> Inr None
      | Some handle \<Rightarrow>
          (case original item of
             Some q \<Rightarrow> handle q back
           | None \<Rightarrow> handle item back))"

text \<open>An entry of the persisted list of registrations.\<close>

record RegistrationInfo =
  extensionId :: string
  providerId :: string

text \<open>An extension of the host's registry: its id, whether it is active, whether its
  \<open>packageJSON.contributes.pythonRemoteServerProvider\<close> is truthy, and how the promise of its
  \<open>activate()\<close> settles.\<close>

record Extension =
  extension_id :: string
  isActive :: bool
  contributesRemoteServerProvider :: bool
  activateSettles :: Settled

definition REGISTRATION_ID_EXTENSION_OWNER_MEMENTO_KEY :: string where
  "REGISTRATION_ID_EXTENSION_OWNER_MEMENTO_KEY = ''REGISTRATION_ID_EXTENSION_OWNER_MEMENTO_KEY''"

text \<open>
  Modelled from the spec: \<open>JVSC_EXTENSION_ID\<close> is a constant of \<open>platform/common/constants\<close>,
  outside the sources at hand; it is the id of the host extension itself, which the load step
  leaves out.
\<close>

definition JVSC_EXTENSION_ID :: string where
  "JVSC_EXTENSION_ID = ''ms-toolsai.jupyter''"

text \<open>
  The registry. \<open>providers\<close> is the map \<open>_providers\<close>; \<open>globalMemento\<close> is the host's global
  key/value store, read and written like the workspace one; \<open>updateSettles\<close> is how the host
  settles the promise of a \<open>globalMemento.update\<close>; \<open>extensions\<close> is \<open>extensions.all\<close>;
  \<open>loadedOtherExtensionsPromise\<close> is \<open>None\<close> while the promise of that name is not set, and
  otherwise tells how it settles. The last four fields record what the registry did to its
  surroundings: the extensions whose \<open>activate()\<close> it called, the change events it fired, the
  errors it traced, and the handles it sent telemetry for.
\<close>

record Registration =
  providers :: "(string \<times> JupyterUriProviderWrapper) list"
  providerExtensionMapping :: "(string \<times> string) list"
  globalMemento :: "string \<rightharpoonup> RegistrationInfo list"
  updateSettles :: Settled
  extensions :: "Extension list"
  loadedOtherExtensionsPromise :: "Settled option"
  activated :: "string list"
  onProvidersChangedFired :: nat
  tracedErrors :: "(string \<times> string) list"
  handlesForWhichWeHaveSentTelemetry :: "string set"

definition registeredList :: "Registration \<Rightarrow> RegistrationInfo list" where
  "registeredList st =
     (case globalMemento st REGISTRATION_ID_EXTENSION_OWNER_MEMENTO_KEY of
        None \<Rightarrow> [] | Some l \<Rightarrow> l)"

definition loadExistingProviderExtensionMapping :: "Registration \<Rightarrow> Registration" where
  "loadExistingProviderExtensionMapping st =
     st\<lparr>providerExtensionMapping :=
          foldl (\<lambda>m item. Map_set (providerId item) (extensionId item) m)
            (providerExtensionMapping st) (registeredList st)\<rparr>"

text \<open>
  Modelled from the spec: the decorator \<open>swallowExceptions\<close> is declared in
  \<open>platform/common/utils/decorators\<close>, outside the sources at hand. By the spec errors are
  swallowed: the decorated method's promise is fulfilled however the body settles.
\<close>

fun swallowExceptions :: "Settled \<Rightarrow> Settled" where
  "swallowExceptions Fulfilled = Fulfilled"
| "swallowExceptions Rejected = Fulfilled"

definition updateRegistrationInfo ::
  "string \<Rightarrow> string \<Rightarrow> Registration \<Rightarrow> Settled \<times> Registration" where
  "updateRegistrationInfo pid eid st =
     (let st1 = loadExistingProviderExtensionMapping st;
          st2 = st1\<lparr>providerExtensionMapping := Map_set pid eid (providerExtensionMapping st1)\<rparr>;
          newList = map (\<lambda>(p, e). \<lparr>extensionId = e, providerId = p\<rparr>)
                      (providerExtensionMapping st2)
      in (swallowExceptions (updateSettles st2),
          st2\<lparr>globalMemento :=
                (globalMemento st2)(REGISTRATION_ID_EXTENSION_OWNER_MEMENTO_KEY \<mapsto> newList)\<rparr>))"

text \<open>The disposable that \<open>registerProvider\<close> returns closes over the provider's id.\<close>

datatype Disposable = ProviderRegistration string

definition registerProvider ::
  "IJupyterUriProvider \<Rightarrow> string \<Rightarrow> Registration \<Rightarrow> (error + Disposable) \<times> Registration" where
  "registerProvider p eid st =
     (if \<not> Map_has (provider_id p) (providers st) then
        let st1 = snd (updateRegistrationInfo (provider_id p) eid st);
            st2 = st1\<lparr>providers := Map_set (provider_id p)
                        \<lparr>provider = p, wrapper_extensionId = eid\<rparr>
                        (providers st1)\<rparr>;
            st3 = st2\<lparr>onProvidersChangedFired := Suc (onProvidersChangedFired st2)\<rparr>
        in (Inr (ProviderRegistration (provider_id p)), st3)
      else (Inl (ProviderAlreadyExists (provider_id p)), st))"

fun dispose :: "Disposable \<Rightarrow> Registration \<Rightarrow> Registration" where
  "dispose (ProviderRegistration pid) st =
     st\<lparr>providers := Map_delete pid (providers st),
        onProvidersChangedFired := Suc (onProvidersChangedFired st)\<rparr>"

text \<open>\<open>Promise.all\<close>: rejected as soon as one of the promises is.\<close>

definition Promise_all :: "Settled list \<Rightarrow> Settled" where
  "Promise_all ps = (if Rejected \<in> set ps then Rejected else Fulfilled)"

text \<open>
  The load step. It asks every extension to activate that contributes a remote server provider
  or owns a persisted registration, is not the host extension and is not active yet, and
  waits for all of them; each activation is followed by \<open>then(noop, noop)\<close>.
\<close>

definition extensionsToLoad :: "Registration \<Rightarrow> Extension list" where
  "extensionsToLoad st =
     filter (\<lambda>e. extension_id e \<noteq> JVSC_EXTENSION_ID)
       (filter (\<lambda>e. contributesRemoteServerProvider e
                     \<or> extension_id e \<in> set (map extensionId (registeredList st)))
          (extensions st))"

definition loadOtherExtensionsImpl :: "Registration \<Rightarrow> Settled \<times> Registration" where
  "loadOtherExtensionsImpl st =
     (let st1 = loadExistingProviderExtensionMapping st;
          exts = extensionsToLoad st1
      in (Promise_all (map (\<lambda>e. if isActive e then Fulfilled
                                 else then_noop_noop (activateSettles e)) exts),
          st1\<lparr>activated := activated st1
                 @ map extension_id (filter (\<lambda>e. \<not> isActive e) exts)\<rparr>))"

definition loadOtherExtensions :: "Registration \<Rightarrow> Settled \<times> Registration" where
  "loadOtherExtensions st =
     (case loadedOtherExtensionsPromise st of
        None \<Rightarrow>
          let r = loadOtherExtensionsImpl st
          in (fst r, (snd r)\<lparr>loadedOtherExtensionsPromise := Some (fst r)\<rparr>)
      | Some q \<Rightarrow> (q, st))"

text \<open>The getter \<open>providers\<close>: starts the load step without waiting for it, ignores how it
  settles, and returns the wrappers registered so far.\<close>

definition get_providers :: "Registration \<Rightarrow> JupyterUriProviderWrapper list \<times> Registration" where
  "get_providers st = (map snd (providers st), snd (loadOtherExtensions st))"

text \<open>The three lookups wait for the load step first; were its promise rejected, the
  \<open>await\<close> would throw.\<close>

definition getProviders ::
  "Registration \<Rightarrow> (error + JupyterUriProviderWrapper list) \<times> Registration" where
  "getProviders st =
     (let l = loadOtherExtensions st
      in case fst l of
           Rejected \<Rightarrow> (Inl LoadFailed, snd l)
         | Fulfilled \<Rightarrow> (let r = get_providers (snd l) in (Inr (fst r), snd r)))"

definition getProvider ::
  "string \<Rightarrow> Registration \<Rightarrow> (error + JupyterUriProviderWrapper option) \<times> Registration" where
  "getProvider pid st =
     (let l = loadOtherExtensions st
      in case fst l of
           Rejected \<Rightarrow> (Inl LoadFailed, snd l)
         | Fulfilled \<Rightarrow> (Inr (Map_get (providers (snd l)) pid), snd l))"

text \<open>\<open>JupyterUriProviderWrapper.getServerUri\<close>: the provider's answer, and telemetry once per
  handle for providers that are not built in.\<close>

definition wrapper_getServerUri ::
  "JupyterUriProviderWrapper \<Rightarrow> string \<Rightarrow> Registration
     \<Rightarrow> (error + IJupyterServerUri) \<times> Registration" where
  "wrapper_getServerUri w handle st =
     (case getServerUri (provider w) handle of
        Inl e \<Rightarrow> (Inl e, st)
      | Inr server \<Rightarrow>
          if \<not> (take 8 (provider_id (provider w)) = ''_builtin'')
             \<and> handle \<notin> handlesForWhichWeHaveSentTelemetry st
          then (Inr server, st\<lparr>handlesForWhichWeHaveSentTelemetry :=
                                  insert handle (handlesForWhichWeHaveSentTelemetry st)\<rparr>)
          else (Inr server, st))"

definition getJupyterServerUri ::
  "string \<Rightarrow> string \<Rightarrow> Registration \<Rightarrow> (error + IJupyterServerUri) \<times> Registration" where
  "getJupyterServerUri pid handle st =
     (let l = loadOtherExtensions st; st1 = snd l
      in case fst l of
           Rejected \<Rightarrow> (Inl LoadFailed, st1)
         | Fulfilled \<Rightarrow>
            (case Map_get (providers st1) pid of
               None \<Rightarrow>
                 (Inl UnknownServerUri, st1\<lparr>tracedErrors := tracedErrors st1 @ [(pid, handle)]\<rparr>)
             | Some w \<Rightarrow>
                 (case getHandles (provider w) of
                    None \<Rightarrow> wrapper_getServerUri w handle st1
                  | Some (Inl e) \<Rightarrow> (Inl e, st1)
                  | Some (Inr handles) \<Rightarrow>
                      if handle \<notin> set handles
                      then (Inl (InvalidRemoteJupyterServerUriHandleError pid handle
                                  (Map_get (providerExtensionMapping st1) pid)), st1)
                      else wrapper_getServerUri w handle st1)))"

section \<open>The promise chain, step by step\<close>

text \<open>
  The tracker above keeps the callbacks that were chained in a list and runs them in that
  order. This section looks at the chain as the code builds it, one promise at a time, to see
  that the order and the waiting follow from the way the three writers use it. Promise \<open>0\<close>
  is \<open>Promise.resolve()\<close>, the value the field starts with; promise \<open>i + 1\<close> is the one
  returned by the \<open>i\<close>-th call of \<open>finally\<close>.

  A chained callback has not run yet (\<open>Pending\<close>), or has run and returned a promise that
  still waits for the update promises of some keys (\<open>Running\<close>), or is through, so that the
  promise \<open>finally\<close> returned for it has settled (\<open>Done\<close>).
\<close>

datatype Phase = Pending | Running "string list" | Done

record Chained =
  callback :: Task
  attachedTo :: nat
  phase :: Phase

text \<open>
  \<open>chainedPromise\<close> is the promise the field \<open>chainedPromises\<close> holds, \<open>chained\<close> the callbacks
  in the order of their \<open>finally\<close> calls, and \<open>inflight\<close> the update promises the host has not
  settled yet, each with the index of the callback that issued it.
\<close>

record PromiseChain =
  memento :: Memento
  chainedPromise :: nat
  chained :: "Chained list"
  inflight :: "(nat \<times> string) list"

definition initial :: "Memento \<Rightarrow> PromiseChain" where
  "initial m = \<lparr>memento = m, chainedPromise = 0, chained = [], inflight = []\<rparr>"

text \<open>Whether a promise has settled.\<close>

fun settled :: "PromiseChain \<Rightarrow> nat \<Rightarrow> bool" where
  "settled c 0 = True"
| "settled c (Suc i) = (i < length (chained c) \<and> phase (chained c ! i) = Done)"

text \<open>\<open>this.chainedPromises = this.chainedPromises.finally(callback)\<close>: the callback hangs
  on the promise the field holds, and the field takes the new promise.\<close>

definition chain_finally :: "Task \<Rightarrow> PromiseChain \<Rightarrow> PromiseChain" where
  "chain_finally t c =
     c\<lparr>chained := chained c @ [\<lparr>callback = t, attachedTo = chainedPromise c, phase = Pending\<rparr>],
       chainedPromise := Suc (length (chained c))\<rparr>"

text \<open>
  The \<open>j\<close>-th callback runs: it reads the memento and calls \<open>update\<close> in one go, since nothing
  else runs in between. The promise \<open>finally\<close> returned settles at once when the callback threw
  or returned nothing to wait for.
\<close>

definition start :: "nat \<Rightarrow> PromiseChain \<Rightarrow> PromiseChain" where
  "start j c =
     (let cb = chained c ! j;
          out = run_task (callback cb) (memento c)
      in c\<lparr>memento := after out,
           chained := (chained c)[j := cb\<lparr>phase :=
             (if threw out \<or> awaited out = [] then Done else Running (awaited out))\<rparr>],
           inflight := inflight c @ map (Pair j) (issued out)\<rparr>)"

text \<open>
  The host settles an update promise. Fulfilled or rejected, \<open>then(noop, noop)\<close> passes it on
  as fulfilled, so the callback's promise has one promise less to wait for.
\<close>

definition settle_update :: "nat \<Rightarrow> string \<Rightarrow> PromiseChain \<Rightarrow> PromiseChain" where
  "settle_update j key c =
     (let cb = chained c ! j
      in c\<lparr>inflight := remove1 (j, key) (inflight c),
           chained := (chained c)[j := cb\<lparr>phase :=
             (case phase cb of
                Running ks \<Rightarrow> (if remove1 key ks = [] then Done else Running (remove1 key ks))
              | ph \<Rightarrow> ph)\<rparr>]\<rparr>)"

text \<open>
  What can happen next: a writer chains a callback; a callback whose promise has settled
  starts; the host settles an update that is in flight.
\<close>

inductive step :: "PromiseChain \<Rightarrow> PromiseChain \<Rightarrow> bool" where
  chains: "step c (chain_finally t c)"
| starts: "j < length (chained c) \<Longrightarrow> phase (chained c ! j) = Pending
           \<Longrightarrow> settled c (attachedTo (chained c ! j)) \<Longrightarrow> step c (start j c)"
| settles: "(j, key) \<in> set (inflight c) \<Longrightarrow> step c (settle_update j key c)"

inductive reachable :: "PromiseChain \<Rightarrow> bool" where
  init: "reachable (initial m)"
| next_step: "reachable c \<Longrightarrow> step c c' \<Longrightarrow> reachable c'"

text \<open>
  What holds of every chain that can be reached: the field holds the newest promise; each
  callback hangs on the promise of the one chained before it; the callbacks that have started
  come before those that have not, and all but the last of them are through; and the updates
  in flight are exactly those the running callback waits for.
\<close>

definition chain_ok :: "PromiseChain \<Rightarrow> bool" where
  "chain_ok c =
     (chainedPromise c = length (chained c)
      \<and> (\<forall>j < length (chained c). attachedTo (chained c ! j) = j)
      \<and> (\<forall>j < length (chained c). phase (chained c ! j) \<noteq> Pending
            \<longrightarrow> (\<forall>i < j. phase (chained c ! i) = Done))
      \<and> (\<forall>j < length (chained c). \<forall>ks. phase (chained c ! j) = Running ks
            \<longrightarrow> inflight c = map (Pair j) ks \<and> ks \<noteq> [])
      \<and> ((\<forall>j < length (chained c). \<forall>ks. phase (chained c ! j) \<noteq> Running ks)
            \<longrightarrow> inflight c = []))"


text \<open>The callbacks that have not started, oldest first: what the tracker's list of pending
  callbacks stands for.\<close>

definition pending :: "PromiseChain \<Rightarrow> Task list" where
  "pending c = map callback (filter (\<lambda>cb. phase cb = Pending) (chained c))"

section \<open>Concrete inputs\<close>

text \<open>The tracker as its constructor leaves it: nothing tracked, nothing stored, and
  \<open>chainedPromises = Promise.resolve()\<close>.\<close>

definition emptyTracker :: Tracker where
  "emptyTracker = \<lparr>executedCells = Map.empty, workspaceMemento = Map.empty,
     chainedPromises = [], chainRejected = False, handlers = []\<rparr>"

definition notebook1 :: NotebookDocument where
  "notebook1 = \<lparr>NotebookDocument.uri = ''file:///a.ipynb'', isUntitled = False\<rparr>"

definition cell1 :: NotebookCell where
  "cell1 = \<lparr>index = 0,
     document = \<lparr>TextDocument.uri = ''cell:a#0'', isUntitled = False\<rparr>,
     notebook = notebook1\<rparr>"

definition remoteKernel :: IKernel where
  "remoteKernel = \<lparr>kernelConnectionMetadata = RemoteConnection ''srv'',
     session = Some \<lparr>kernel = Some \<lparr>kernel_id = ''k1''\<rparr>\<rparr>\<rparr>"

definition record1 :: CellExecutionInfo where
  "record1 = \<lparr>msg_id = Some ''m1'', kernelId = Some ''k1'', cellIndex = Some 0,
     startTime = Some (Num 100), executionCount = Some (Num 3)\<rparr>"

text \<open>A tracker whose memento holds one record, for \<open>notebook1\<close> on server \<open>srv\<close>.\<close>

definition trackerWithRecord :: "CellExecutionInfo \<Rightarrow> Tracker" where
  "trackerWithRecord r = emptyTracker\<lparr>workspaceMemento :=
     [getStateKey ''srv'' \<mapsto> [''file:///a.ipynb'' \<mapsto> r]]\<rparr>"


text \<open>A cell of an untitled notebook. The cell's own text document is not flagged untitled:
  the flag of a cell document and the flag of its notebook are separate.\<close>

definition untitledCell :: NotebookCell where
  "untitledCell = \<lparr>index = 0,
     document = \<lparr>TextDocument.uri = ''cell:Untitled-1#0'', isUntitled = False\<rparr>,
     notebook = \<lparr>NotebookDocument.uri = ''untitled:Untitled-1.ipynb'', isUntitled = True\<rparr>\<rparr>"

text \<open>Messages of one execution of \<open>cell1\<close>: the request, and what comes back on iopub.\<close>

definition request1 :: AnyMessageArgs where
  "request1 = \<lparr>direction = send, header_msg_type = ''execute_request'', header_msg_id = ''m1'',
     header_date = Some (Num 90), metadata_cellId = Some ''cell:a#0'',
     parent_header_msg_id = None, content_execution_count = Absent\<rparr>"

definition status1 :: AnyMessageArgs where
  "status1 = \<lparr>direction = recv, header_msg_type = ''status'', header_msg_id = ''r0'',
     header_date = Some (Num 100), metadata_cellId = None,
     parent_header_msg_id = Some ''m1'', content_execution_count = Absent\<rparr>"

definition status2 :: AnyMessageArgs where
  "status2 = \<lparr>direction = recv, header_msg_type = ''stream'', header_msg_id = ''r1'',
     header_date = Some (Num 200), metadata_cellId = None,
     parent_header_msg_id = Some ''m1'', content_execution_count = Absent\<rparr>"

definition reply1 :: AnyMessageArgs where
  "reply1 = \<lparr>direction = recv, header_msg_type = ''execute_input'', header_msg_id = ''r1'',
     header_date = Some (Num 100), metadata_cellId = None,
     parent_header_msg_id = Some ''m1'', content_execution_count = IsNumber (Num 3)\<rparr>"

definition reply2 :: AnyMessageArgs where
  "reply2 = \<lparr>direction = recv, header_msg_type = ''execute_reply'', header_msg_id = ''r2'',
     header_date = Some (Num 300), metadata_cellId = None,
     parent_header_msg_id = Some ''m1'', content_execution_count = IsNumber (Num 7)\<rparr>"

text \<open>The tracker after \<open>cell1\<close> was tracked, its request sent and a first message received.\<close>

definition trackerStarted :: Tracker where
  "trackerStarted = deliver 0 101 status1
     (deliver 0 95 request1 (trackCellExecution cell1 remoteKernel emptyTracker))"

text \<open>A second request for \<open>cell1\<close>, what comes back for it, and the session of the kernel
  once it has started again.\<close>

definition request2 :: AnyMessageArgs where
  "request2 = request1\<lparr>header_msg_id := ''m2''\<rparr>"

definition status3 :: AnyMessageArgs where
  "status3 = status2\<lparr>parent_header_msg_id := Some ''m2''\<rparr>"

definition reply3 :: AnyMessageArgs where
  "reply3 = reply2\<lparr>parent_header_msg_id := Some ''m2''\<rparr>"

definition session2 :: IKernelSession where
  "session2 = \<lparr>kernel = Some \<lparr>kernel_id = ''k2''\<rparr>\<rparr>"



text \<open>The registry as its constructor leaves it, for a given list of installed extensions.
  The host rejects the promises of its memento updates.\<close>

definition emptyRegistration :: "Extension list \<Rightarrow> Registration" where
  "emptyRegistration exts = \<lparr>providers = [], providerExtensionMapping = [],
     globalMemento = Map.empty, updateSettles = Rejected, extensions = exts,
     loadedOtherExtensionsPromise = None, activated = [], onProvidersChangedFired = 0,
     tracedErrors = [], handlesForWhichWeHaveSentTelemetry = {}\<rparr>"

definition server1 :: IJupyterServerUri where
  "server1 = \<lparr>baseUrl = ''http://host:8888'', token = ''t''\<rparr>"

text \<open>A provider with one handle, \<open>h1\<close>.\<close>

definition item1 :: QuickPickItem where
  "item1 = QuickPickItem ''Server one'' None None"

definition provider1 :: IJupyterUriProvider where
  "provider1 = \<lparr>provider_id = ''p1'', getHandles = Some (Inr [''h1'']),
     getServerUri = (\<lambda>h. if h = ''h1'' then Inr server1 else Inl (ProviderFailed h)),
     getQuickPickEntryItems = Some (Inr [item1]),
     handleQuickPick = Some (\<lambda>q back. if back then Inr (Some ''back'')
                                        else if q = item1 then Inr (Some ''h1'')
                                        else Inl (ProviderFailed (label q))),
     removeHandle = Some (\<lambda>h. if h = ''h1'' then Inr () else Inl (ProviderFailed h))\<rparr>"

text \<open>Five installed extensions: the host extension itself (listed as not active, so that
  only the filter on its id keeps it out), the owner of a registration whose activation
  fails, a contributor that is not active, one that is, and an unrelated one.\<close>

definition extensions1 :: "Extension list" where
  "extensions1 =
     [\<lparr>extension_id = ''ms-toolsai.jupyter'', isActive = False,
        contributesRemoteServerProvider = True, activateSettles = Fulfilled\<rparr>,
      \<lparr>extension_id = ''ext.a'', isActive = False,
        contributesRemoteServerProvider = False, activateSettles = Rejected\<rparr>,
      \<lparr>extension_id = ''ext.b'', isActive = False,
        contributesRemoteServerProvider = True, activateSettles = Fulfilled\<rparr>,
      \<lparr>extension_id = ''ext.c'', isActive = True,
        contributesRemoteServerProvider = True, activateSettles = Fulfilled\<rparr>,
      \<lparr>extension_id = ''ext.d'', isActive = False,
        contributesRemoteServerProvider = False, activateSettles = Fulfilled\<rparr>]"

text \<open>The wrapper that the registry makes of \<open>provider1\<close> for extension \<open>ext.a\<close>, and one
  of the entries it hands out.\<close>

definition wrapper1 :: JupyterUriProviderWrapper where
  "wrapper1 = \<lparr>provider = provider1, wrapper_extensionId = ''ext.a''\<rparr>"

definition wrappedItem1 :: QuickPickItem where
  "wrappedItem1 = QuickPickItem ''Server one'' (Some '' - ext.a'') (Some item1)"

text \<open>The registry after extension \<open>ext.a\<close> registered \<open>provider1\<close>.\<close>

definition registration1 :: Registration where
  "registration1 = snd (registerProvider provider1 ''ext.a'' (emptyRegistration extensions1))"

text \<open>
  A chain at work: a write and a delete for \<open>cell1\<close> are chained, the write runs and its update
  settles, and then the delete runs and finds the record of its own cell.
\<close>

definition exampleChain :: PromiseChain where
  "exampleChain =
     start 1 (settle_update 0 (getStateKey ''srv'')
       (start 0
         (chain_finally (DeleteTask (getStateKey ''srv'') cell1)
           (chain_finally (TrackTask (getStateKey ''srv'') cell1 record1)
             (initial Map.empty)))))"

section \<open>The promise chain runs its callbacks in order\<close>

lemma run_next_chained:
  "run_next t (s\<lparr>chainedPromises := c\<rparr>) = (run_next t s)\<lparr>chainedPromises := c\<rparr>"
  by (simp add: run_next_def Let_def)

lemma run_all_chained:
  "run_all ts (s\<lparr>chainedPromises := c\<rparr>) = (run_all ts s)\<lparr>chainedPromises := c\<rparr>"
  by (induction ts arbitrary: s) (simp_all add: run_next_chained)

lemma run_all_append: "run_all (ts @ us) s = run_all us (run_all ts s)"
  by (induction ts arbitrary: s) simp_all

text \<open>A callback chained last runs last, on the state the earlier ones leave.\<close>

lemma settle_chain: "settle (chain t s) = run_next t (settle s)"
  by (simp add: settle_def chain_def run_all_chained run_all_append run_next_chained)

lemma settle_idle: "chainedPromises s = [] \<Longrightarrow> settle s = s"
  by (simp add: settle_def)

lemma workspaceMemento_run_next:
  "workspaceMemento (run_next t s) = after (run_task t (workspaceMemento s))"
  by (simp add: run_next_def Let_def)

lemma chainRejected_run_next:
  "chainRejected (run_next t s) = (chainRejected s \<or> threw (run_task t (workspaceMemento s)))"
  by (simp add: run_next_def Let_def)


lemma examples_idle:
  "chainedPromises (trackerWithRecord r) = []" "chainedPromises emptyTracker = []"
  by (simp_all add: trackerWithRecord_def emptyTracker_def)

section \<open>Deleting a tracked execution\<close>

text \<open>
  C1, as the code has it. For a saved notebook on a remote kernel whose record is in the
  persisted state of the kernel's server when the queued step runs,
  \<open>deleteTrackedCellExecution\<close> removes the record exactly when the stored cell index is the
  index of the cell passed in, and leaves it as it is otherwise.
\<close>

theorem deleteTrackedCellExecution_on_match:
  assumes "\<not> NotebookDocument.isUntitled (notebook cell)"
    and "kernelConnectionMetadata k = RemoteConnection sid"
    and "Memento_get (workspaceMemento (settle s)) (getStateKey sid) Map.empty
           (NotebookDocument.uri (notebook cell)) = Some entry"
  shows "Memento_get (workspaceMemento (settle (deleteTrackedCellExecution cell k s)))
           (getStateKey sid) Map.empty (NotebookDocument.uri (notebook cell))
         = (if cellIndex entry = Some (index cell) then None else Some entry)"
  using assms
  by (simp add: deleteTrackedCellExecution_def settle_chain workspaceMemento_run_next
      run_delete_def Let_def Memento_get_def Memento_update_def split: option.splits)

text \<open>The stored record is for cell 4, the cell passed in is cell 0: the record stays.\<close>

theorem deleteTrackedCellExecution_on_match_witness:
  "Memento_get (workspaceMemento (settle (deleteTrackedCellExecution cell1 remoteKernel
       (trackerWithRecord (record1\<lparr>cellIndex := Some 4\<rparr>)))))
     (getStateKey ''srv'') Map.empty ''file:///a.ipynb'' = Some (record1\<lparr>cellIndex := Some 4\<rparr>)"
  using deleteTrackedCellExecution_on_match [of cell1 remoteKernel "''srv''"
      "trackerWithRecord (record1\<lparr>cellIndex := Some 4\<rparr>)" "record1\<lparr>cellIndex := Some 4\<rparr>"]
  by (simp add: settle_idle examples_idle cell1_def notebook1_def remoteKernel_def
      trackerWithRecord_def Memento_get_def record1_def)

text \<open>
  C1 as the claim words it (deleted when the index no longer matches, kept when it still
  matches) fails: here the stored index is the cell's index, and the record is deleted.
\<close>

theorem delete_on_match_counterexample:
  "cellIndex record1 = Some (index cell1)
   \<and> Memento_get (workspaceMemento (trackerWithRecord record1))
        (getStateKey ''srv'') Map.empty (NotebookDocument.uri (notebook cell1)) = Some record1
   \<and> Memento_get (workspaceMemento (settle (deleteTrackedCellExecution cell1 remoteKernel
          (trackerWithRecord record1))))
        (getStateKey ''srv'') Map.empty (NotebookDocument.uri (notebook cell1)) = None"
  by (simp add: deleteTrackedCellExecution_def settle_chain settle_idle examples_idle
      workspaceMemento_run_next run_delete_def Let_def Memento_get_def Memento_update_def
      cell1_def notebook1_def remoteKernel_def trackerWithRecord_def record1_def)

text \<open>
  C9. With nothing stored for the cell's notebook, the queued step of
  \<open>deleteTrackedCellExecution\<close> does not complete without error: reading \<open>cellIndex\<close> of the
  missing entry throws, and the chained promise is left rejected.
\<close>

theorem delete_without_entry_throws:
  "threw (run_task (DeleteTask (getStateKey ''srv'') cell1) (workspaceMemento emptyTracker))
   \<and> chainRejected (settle (deleteTrackedCellExecution cell1 remoteKernel emptyTracker))"
  by (simp add: deleteTrackedCellExecution_def settle_chain settle_idle examples_idle
      chainRejected_run_next run_delete_def Let_def Memento_get_def
      cell1_def notebook1_def remoteKernel_def emptyTracker_def)

section \<open>Removing servers\<close>





section \<open>Which executions are tracked\<close>

lemmas example_defs = cell1_def notebook1_def remoteKernel_def emptyTracker_def request1_def
  reply1_def reply2_def status1_def status2_def untitledCell_def

lemmas handler_defs = deliver_def anyMessageHandler_def handle_send_def handle_recv_def
  trackCellExecution_def trackLastExecution_def chain_def hookUpSession_def
  hasSessionKernel_def kernelIdOf_def disposeAllDisposables_def startTimeOf_def
  truthy_string_def truthy_field_def strict_neq_field_def Let_def

text \<open>The guards as the code has them: \<open>getLastTrackedCellExecution\<close> looks at the notebook's
  flag, \<open>trackCellExecution\<close> at the flag of the cell's own document.\<close>

lemma getLastTrackedCellExecution_guard:
  "NotebookDocument.isUntitled nb \<or> \<not> isRemoteConnection (kernelConnectionMetadata k)
   \<Longrightarrow> getLastTrackedCellExecution nb k s = None"
  by (auto simp: getLastTrackedCellExecution_def)

lemma trackCellExecution_guard:
  "\<not> isRemoteConnection (kernelConnectionMetadata k) \<or> TextDocument.isUntitled (document cell)
   \<Longrightarrow> trackCellExecution cell k s = s"
  by (auto simp: trackCellExecution_def)

text \<open>
  C6. For a cell of an untitled notebook on a remote kernel, \<open>trackCellExecution\<close> does not
  return untouched: it registers a handler, and the execution that follows is recorded in
  memory and in the memento under the untitled notebook's URI. The guard reads
  \<open>cell.document.isUntitled\<close>, where the other two operations read the notebook's flag.
\<close>

theorem trackCellExecution_untitled_notebook:
  "NotebookDocument.isUntitled (notebook untitledCell)
   \<and> handlers (trackCellExecution untitledCell remoteKernel emptyTracker)
       = [\<lparr>h_cell = untitledCell, h_kernel = remoteKernel, listening = True, connected = True\<rparr>]
   \<and> Memento_get (workspaceMemento (settle (deliver 0 105 reply1
         (deliver 0 95 (request1\<lparr>metadata_cellId := Some ''cell:Untitled-1#0''\<rparr>)
           (trackCellExecution untitledCell remoteKernel emptyTracker)))))
       (getStateKey ''srv'') Map.empty ''untitled:Untitled-1.ipynb''
     = Some \<lparr>msg_id = Some ''m1'', kernelId = Some ''k1'', cellIndex = Some 0,
              startTime = Some (Num 100), executionCount = Some (Num 3)\<rparr>"
  by (simp add: handler_defs example_defs settle_def run_next_def run_track_def
      Memento_get_def Memento_update_def)

text \<open>In particular, one handler is registered and connected for the untitled notebook's
  cell.\<close>

theorem trackCellExecution_untitled_notebook_witness:
  "length (handlers (trackCellExecution untitledCell remoteKernel emptyTracker)) = 1
   \<and> connected (handlers (trackCellExecution untitledCell remoteKernel emptyTracker) ! 0)"
  using trackCellExecution_untitled_notebook by simp

section \<open>Recording the execution count\<close>

lemma deliver_recv_count:
  assumes "i < length (handlers s)" and "connected (handlers s ! i)"
    and "h_cell (handlers s ! i) = cell" and "h_kernel (handlers s ! i) = k"
    and "kernelConnectionMetadata k = RemoteConnection sid"
    and "executedCells s cell = Some info" and "truthy_string (msg_id info)"
    and "direction msg = recv" and "parent_header_msg_id msg = msg_id info"
    and "content_execution_count msg = IsNumber c"
    and "\<not> truthy_field (executionCount info)" and "strict_neq_field (executionCount info) c"
  shows "chainedPromises (deliver i now msg s) = chainedPromises s @
          [TrackTask (getStateKey sid) cell
            (info\<lparr>startTime := (if truthy_field (startTime info) then startTime info
                                  else Some (startTimeOf now msg)),
                  executionCount := Some c\<rparr>)]"
    and "workspaceMemento (deliver i now msg s) = workspaceMemento s"
  using assms
  by (auto simp: deliver_def anyMessageHandler_def handle_recv_def Let_def
      trackLastExecution_def chain_def truthy_string_def split: option.splits)

text \<open>
  C3. A handler that is connected for a cell on a remote kernel receives an iopub message
  whose parent message id is the tracked one and whose content carries a number as execution
  count, while the record has no execution count yet (a new count). Once the queued write
  has run, the memento holds the record with that count under the state key of the kernel's
  server, at the notebook's URI string, whatever was stored there before.
\<close>

theorem execution_count_persisted:
  assumes "i < length (handlers s)" and "connected (handlers s ! i)"
    and "h_cell (handlers s ! i) = cell" and "h_kernel (handlers s ! i) = k"
    and "kernelConnectionMetadata k = RemoteConnection sid"
    and "executedCells s cell = Some info" and "truthy_string (msg_id info)"
    and "direction msg = recv" and "parent_header_msg_id msg = msg_id info"
    and "content_execution_count msg = IsNumber c"
    and "\<not> truthy_field (executionCount info)" and "strict_neq_field (executionCount info) c"
  shows "Memento_get (workspaceMemento (settle (deliver i now msg s)))
           (getStateKey sid) Map.empty (NotebookDocument.uri (notebook cell))
         = Some (info\<lparr>startTime := (if truthy_field (startTime info) then startTime info
                                      else Some (startTimeOf now msg)),
                      executionCount := Some c\<rparr>)"
proof -
  let ?info = "info\<lparr>startTime := (if truthy_field (startTime info) then startTime info
                                      else Some (startTimeOf now msg)),
                      executionCount := Some c\<rparr>"
  let ?t = "TrackTask (getStateKey sid) cell ?info"
  have "chainedPromises (deliver i now msg s) = chainedPromises s @ [?t]"
    using assms by (rule deliver_recv_count(1))
  then have "settle (deliver i now msg s)
               = run_next ?t (settle ((deliver i now msg s)\<lparr>chainedPromises := chainedPromises s\<rparr>))"
    by (simp add: settle_def run_all_append run_all_chained run_next_chained)
  then show ?thesis
    by (simp add: workspaceMemento_run_next run_track_def Let_def Memento_get_def
        Memento_update_def)
qed

text \<open>One execution from start to end: tracked, requested, answered with count 3.\<close>

theorem execution_count_persisted_witness:
  "Memento_get (workspaceMemento (settle (deliver 0 105 reply1
       (deliver 0 95 request1 (trackCellExecution cell1 remoteKernel emptyTracker)))))
     (getStateKey ''srv'') Map.empty ''file:///a.ipynb''
   = Some \<lparr>msg_id = Some ''m1'', kernelId = Some ''k1'', cellIndex = Some 0,
            startTime = Some (Num 100), executionCount = Some (Num 3)\<rparr>"
  using execution_count_persisted [of 0
      "deliver 0 95 request1 (trackCellExecution cell1 remoteKernel emptyTracker)"
      cell1 remoteKernel "''srv''"
      "\<lparr>msg_id = Some ''m1'', kernelId = Some ''k1'', cellIndex = Some 0,
        startTime = None, executionCount = None\<rparr>" reply1 "Num 3" 105]
  by (simp add: deliver_def anyMessageHandler_def handle_send_def trackCellExecution_def
      hookUpSession_def hasSessionKernel_def kernelIdOf_def Let_def cell1_def notebook1_def
      remoteKernel_def emptyTracker_def request1_def reply1_def truthy_string_def
      truthy_field_def strict_neq_field_def startTimeOf_def)

section \<open>One write per tracked execution\<close>



lemma handlers_trackLastExecution [simp]:
  "handlers (trackLastExecution cell k info s) = handlers s"
  by (simp add: trackLastExecution_def chain_def)

lemma executedCells_trackLastExecution [simp]:
  "executedCells (trackLastExecution cell k info s) = executedCells s"
  by (simp add: trackLastExecution_def chain_def)

lemma chainedPromises_trackLastExecution:
  "chainedPromises (trackLastExecution cell k info s) = chainedPromises s
   \<or> (\<exists>t. chainedPromises (trackLastExecution cell k info s) = chainedPromises s @ [t])"
  by (simp add: trackLastExecution_def chain_def)


















lemma trackerStarted_eq:
  "trackerStarted = \<lparr>executedCells = [cell1 \<mapsto> \<lparr>msg_id = Some ''m1'', kernelId = Some ''k1'',
        cellIndex = Some 0, startTime = Some (Num 100), executionCount = None\<rparr>],
     workspaceMemento = Map.empty, chainedPromises = [], chainRejected = False,
     handlers = [\<lparr>h_cell = cell1, h_kernel = remoteKernel, listening = True, connected = True\<rparr>]\<rparr>"
  by (simp add: trackerStarted_def handler_defs example_defs)

lemmas more_examples = request2_def status3_def reply3_def session2_def

lemma trackerCounted_eq:
  "deliver_all 0 [(205, status2), (305, reply1)] trackerStarted
     = \<lparr>executedCells = [cell1 \<mapsto> \<lparr>msg_id = Some ''m1'', kernelId = Some ''k1'',
          cellIndex = Some 0, startTime = Some (Num 100), executionCount = Some (Num 3)\<rparr>],
        workspaceMemento = Map.empty,
        chainedPromises = [TrackTask (getStateKey ''srv'') cell1
          \<lparr>msg_id = Some ''m1'', kernelId = Some ''k1'', cellIndex = Some 0,
           startTime = Some (Num 100), executionCount = Some (Num 3)\<rparr>],
        chainRejected = False,
        handlers = [\<lparr>h_cell = cell1, h_kernel = remoteKernel, listening = True,
                     connected = False\<rparr>]\<rparr>"
  by (simp add: trackerStarted_eq handler_defs example_defs)



lemma restarted_eq:
  "onStarted 0 session2 (deliver_all 0 [(205, status2), (305, reply1)] trackerStarted)
     = (deliver_all 0 [(205, status2), (305, reply1)] trackerStarted)
         \<lparr>handlers := [\<lparr>h_cell = cell1,
             h_kernel = remoteKernel\<lparr>session := Some session2\<rparr>,
             listening = True, connected = True\<rparr>]\<rparr>"
  unfolding trackerCounted_eq
  by (simp add: onStarted_def hookUpSession_def hasSessionKernel_def Let_def session2_def)











text \<open>
  When the kernel starts again after the count was recorded, the listener of \<open>onStarted\<close>, which
  disposing did not remove, connects the handler again; a further request and count make the
  same closure queue a second write.
\<close>

lemma restart_queues_second_write:
  "map connected (handlers (deliver_all 0 [(205, status2), (305, reply1)] trackerStarted))
     = [False]
   \<and> map connected (handlers (onStarted 0 session2
        (deliver_all 0 [(205, status2), (305, reply1)] trackerStarted))) = [True]
   \<and> length (chainedPromises (deliver_all 0 [(205, status2), (305, reply1)] trackerStarted)) = 1
   \<and> length (chainedPromises (deliver 0 420 reply3 (deliver 0 410 request2
        (onStarted 0 session2
          (deliver_all 0 [(205, status2), (305, reply1)] trackerStarted))))) = 2"
  by (simp only: restarted_eq, simp only: trackerCounted_eq)
    (simp add: handler_defs example_defs more_examples)

section \<open>Registrations are persisted and their owners loaded\<close>

lemma Map_set_member: "(k, v) \<in> set (Map_set k v m)"
  by (induction m) auto

lemma Map_has_Map_get: "Map_has k m = (Map_get m k \<noteq> None)"
  by (simp add: Map_has_def Map_get_def map_of_eq_None_iff)

lemma registeredList_updateRegistrationInfo:
  "registeredList (snd (updateRegistrationInfo pid eid st))
     = map (\<lambda>(p, e). \<lparr>extensionId = e, providerId = p\<rparr>)
         (Map_set pid eid (providerExtensionMapping (loadExistingProviderExtensionMapping st)))"
  by (simp add: updateRegistrationInfo_def registeredList_def Let_def)

lemma registeredList_registerProvider:
  "\<not> Map_has (provider_id p) (providers st) \<Longrightarrow>
   registeredList (snd (registerProvider p eid st))
     = registeredList (snd (updateRegistrationInfo (provider_id p) eid st))"
  by (simp add: registerProvider_def registeredList_def Let_def)

lemma registered_pair_persisted:
  assumes "\<not> Map_has (provider_id p) (providers st)"
  shows "\<lparr>extensionId = eid, providerId = provider_id p\<rparr>
           \<in> set (registeredList (snd (registerProvider p eid st)))"
proof -
  have "(provider_id p, eid) \<in> set (Map_set (provider_id p) eid
          (providerExtensionMapping (loadExistingProviderExtensionMapping st)))"
    by (rule Map_set_member)
  then have "(\<lambda>(p, e). \<lparr>extensionId = e, providerId = p\<rparr>) (provider_id p, eid)
      \<in> set (registeredList (snd (updateRegistrationInfo (provider_id p) eid st)))"
    unfolding registeredList_updateRegistrationInfo set_map by (rule imageI)
  with assms show ?thesis by (simp add: registeredList_registerProvider)
qed

lemma registeredList_loadExisting [simp]:
  "registeredList (loadExistingProviderExtensionMapping st) = registeredList st"
  by (simp add: loadExistingProviderExtensionMapping_def registeredList_def)

lemma extensions_loadExisting [simp]:
  "extensions (loadExistingProviderExtensionMapping st) = extensions st"
  by (simp add: loadExistingProviderExtensionMapping_def)

lemma activated_loadExisting [simp]:
  "activated (loadExistingProviderExtensionMapping st) = activated st"
  by (simp add: loadExistingProviderExtensionMapping_def)

lemma activated_loadOtherExtensionsImpl:
  "activated (snd (loadOtherExtensionsImpl st)) = activated st @ map extension_id
     (filter (\<lambda>e. \<not> isActive e
                \<and> (contributesRemoteServerProvider e
                    \<or> extension_id e \<in> extensionId ` set (registeredList st))
                \<and> extension_id e \<noteq> JVSC_EXTENSION_ID) (extensions st))"
  by (simp add: loadOtherExtensionsImpl_def extensionsToLoad_def Let_def conj_commute
      cong: conj_cong)

lemma loadOtherExtensionsImpl_fulfilled: "fst (loadOtherExtensionsImpl st) = Fulfilled"
proof -
  have "then_noop_noop q = Fulfilled" for q by (cases q) simp_all
  then show ?thesis
    by (auto simp: loadOtherExtensionsImpl_def Let_def Promise_all_def)
qed

lemma loadOtherExtensions_cases:
  "loadOtherExtensions st
     = (case loadedOtherExtensionsPromise st of
          None \<Rightarrow> (Fulfilled, (snd (loadOtherExtensionsImpl st))
                                \<lparr>loadedOtherExtensionsPromise := Some Fulfilled\<rparr>)
        | Some q \<Rightarrow> (q, st))"
  by (simp add: loadOtherExtensions_def Let_def loadOtherExtensionsImpl_fulfilled
      split: option.splits)

lemma loadOtherExtensions_rejected:
  "(fst (loadOtherExtensions st) = Rejected) = (loadedOtherExtensionsPromise st = Some Rejected)"
  by (simp add: loadOtherExtensions_cases split: option.splits)

lemma loadOtherExtensions_once:
  "snd (loadOtherExtensions (snd (loadOtherExtensions st))) = snd (loadOtherExtensions st)"
  by (simp add: loadOtherExtensions_cases split: option.splits)

lemma lookups_load_first:
  "activated (snd (getProvider pid st)) = activated (snd (loadOtherExtensions st))"
  "activated (snd (getProviders st)) = activated (snd (loadOtherExtensions st))"
  by (simp_all add: getProvider_def getProviders_def get_providers_def Let_def
      loadOtherExtensions_once split: Settled.splits)

lemma activated_wrapper_getServerUri [simp]:
  "activated (snd (wrapper_getServerUri w handle st)) = activated st"
  by (simp add: wrapper_getServerUri_def split: sum.splits)

lemma activated_getJupyterServerUri:
  "activated (snd (getJupyterServerUri pid handle st)) = activated (snd (loadOtherExtensions st))"
  by (simp add: getJupyterServerUri_def Let_def split: option.splits sum.splits Settled.splits)

text \<open>
  C7. A \<open>registerProvider\<close> call for an id that is not registered yet succeeds and leaves the
  pair of provider id and extension id in the list persisted in the global memento. The load
  step calls \<open>activate()\<close> on exactly the extensions that are not active yet, that contribute
  \<open>pythonRemoteServerProvider\<close> or own an entry of the persisted list, and that are not the host
  extension. It runs when its promise is not set yet and never again, and every lookup
  (\<open>getProvider\<close>, \<open>getProviders\<close>, \<open>getJupyterServerUri\<close>) goes through it first.
\<close>

theorem registrations_persisted_and_loaded:
  "(\<not> Map_has (provider_id p) (providers st) \<longrightarrow>
      (\<exists>d. fst (registerProvider p eid st) = Inr d)
      \<and> \<lparr>extensionId = eid, providerId = provider_id p\<rparr>
           \<in> set (registeredList (snd (registerProvider p eid st))))
   \<and> activated (snd (loadOtherExtensionsImpl st)) = activated st @ map extension_id
        (filter (\<lambda>e. \<not> isActive e
                   \<and> (contributesRemoteServerProvider e
                       \<or> extension_id e \<in> extensionId ` set (registeredList st))
                   \<and> extension_id e \<noteq> JVSC_EXTENSION_ID) (extensions st))
   \<and> activated (snd (loadOtherExtensions st))
        = (if loadedOtherExtensionsPromise st = None
           then activated (snd (loadOtherExtensionsImpl st)) else activated st)
   \<and> loadedOtherExtensionsPromise (snd (loadOtherExtensions st)) \<noteq> None
   \<and> activated (snd (getProvider pid st)) = activated (snd (loadOtherExtensions st))
   \<and> activated (snd (getProviders st)) = activated (snd (loadOtherExtensions st))
   \<and> activated (snd (getJupyterServerUri pid handle st))
        = activated (snd (loadOtherExtensions st))"
proof (intro conjI impI)
  assume "\<not> Map_has (provider_id p) (providers st)"
  then show "\<exists>d. fst (registerProvider p eid st) = Inr d"
    by (simp add: registerProvider_def Let_def)
next
  assume "\<not> Map_has (provider_id p) (providers st)"
  then show "\<lparr>extensionId = eid, providerId = provider_id p\<rparr>
               \<in> set (registeredList (snd (registerProvider p eid st)))"
    by (rule registered_pair_persisted)
next
  show "activated (snd (loadOtherExtensions st))
        = (if loadedOtherExtensionsPromise st = None
           then activated (snd (loadOtherExtensionsImpl st)) else activated st)"
    by (simp add: loadOtherExtensions_cases split: option.splits)
next
  show "loadedOtherExtensionsPromise (snd (loadOtherExtensions st)) \<noteq> None"
    by (simp add: loadOtherExtensions_cases split: option.splits)
qed (simp_all add: activated_loadOtherExtensionsImpl lookups_load_first
      activated_getJupyterServerUri)

lemma registration1_eq:
  "registration1 = \<lparr>providers = [(''p1'', \<lparr>provider = provider1, wrapper_extensionId = ''ext.a''\<rparr>)],
     providerExtensionMapping = [(''p1'', ''ext.a'')],
     globalMemento = [REGISTRATION_ID_EXTENSION_OWNER_MEMENTO_KEY
                        \<mapsto> [\<lparr>extensionId = ''ext.a'', providerId = ''p1''\<rparr>]],
     updateSettles = Rejected, extensions = extensions1,
     loadedOtherExtensionsPromise = None, activated = [], onProvidersChangedFired = 1,
     tracedErrors = [], handlesForWhichWeHaveSentTelemetry = {}\<rparr>"
  by (simp add: registration1_def emptyRegistration_def registerProvider_def
      updateRegistrationInfo_def loadExistingProviderExtensionMapping_def registeredList_def
      Map_has_def Let_def provider1_def)

lemma provider1_simps:
  "provider_id provider1 = ''p1''" "getHandles provider1 = Some (Inr [''h1''])"
  "getServerUri provider1 ''h1'' = Inr server1"
  by (simp_all add: provider1_def)

lemma impl1:
  "snd (loadOtherExtensionsImpl registration1)
     = registration1\<lparr>providerExtensionMapping := [(''p1'', ''ext.a'')],
          activated := [''ext.a'', ''ext.b'']\<rparr>"
  by (simp add: registration1_eq loadOtherExtensionsImpl_def
      loadExistingProviderExtensionMapping_def registeredList_def extensionsToLoad_def
      Let_def extensions1_def JVSC_EXTENSION_ID_def)

lemma registration1_fields:
  "loadedOtherExtensionsPromise registration1 = None"
  "providers registration1 = [(''p1'', \<lparr>provider = provider1, wrapper_extensionId = ''ext.a''\<rparr>)]"
  "registeredList registration1 = [\<lparr>extensionId = ''ext.a'', providerId = ''p1''\<rparr>]"
  "onProvidersChangedFired registration1 = 1"
  "tracedErrors registration1 = []"
  by (simp_all add: registration1_eq registeredList_def)

lemma loaded1:
  "loadOtherExtensions registration1
     = (Fulfilled, registration1\<lparr>providerExtensionMapping := [(''p1'', ''ext.a'')],
          activated := [''ext.a'', ''ext.b''], loadedOtherExtensionsPromise := Some Fulfilled\<rparr>)"
  by (simp add: loadOtherExtensions_cases impl1 registration1_fields)

text \<open>Extension \<open>ext.a\<close> registers \<open>p1\<close>: the pair is persisted, the load step activates \<open>ext.a\<close>
  (owner of a registration) and \<open>ext.b\<close> (a contributor), but not the host extension, the
  active \<open>ext.c\<close> or the unrelated \<open>ext.d\<close>, and a second lookup activates nothing more.\<close>

theorem registrations_persisted_and_loaded_witness:
  "registeredList registration1 = [\<lparr>extensionId = ''ext.a'', providerId = ''p1''\<rparr>]
   \<and> activated (snd (loadOtherExtensionsImpl registration1)) = [''ext.a'', ''ext.b'']
   \<and> activated (snd (getProvider ''p1'' (snd (getProvider ''p1'' registration1))))
       = [''ext.a'', ''ext.b'']"
  using registrations_persisted_and_loaded [of provider1 "emptyRegistration extensions1" "''ext.a''"]
    registrations_persisted_and_loaded [of _ registration1]
    registrations_persisted_and_loaded [of _ "snd (getProvider ''p1'' registration1)" _ "''p1''"]
  by (simp add: loaded1 impl1 getProvider_def Let_def loadOtherExtensions_cases
      registration1_fields)

section \<open>Registering a provider twice\<close>

text \<open>
  C8. For a provider whose id is already in the provider map, \<open>registerProvider\<close> throws, and
  leaves the registry as it was: the provider map, the mapping from providers to extensions
  and the persisted list are unchanged, and no change event is fired.
\<close>

theorem registerProvider_atomic_on_failure:
  assumes "Map_has (provider_id p) (providers st)"
  shows "fst (registerProvider p eid st) = Inl (ProviderAlreadyExists (provider_id p))
         \<and> snd (registerProvider p eid st) = st
         \<and> providers (snd (registerProvider p eid st)) = providers st
         \<and> providerExtensionMapping (snd (registerProvider p eid st)) = providerExtensionMapping st
         \<and> registeredList (snd (registerProvider p eid st)) = registeredList st
         \<and> onProvidersChangedFired (snd (registerProvider p eid st)) = onProvidersChangedFired st"
  using assms by (simp add: registerProvider_def)

text \<open>A second registration of \<open>p1\<close>, by another extension, throws; the list still names
  \<open>ext.a\<close> and the one event of the first registration is the only one.\<close>

theorem registerProvider_atomic_on_failure_witness:
  "Map_has ''p1'' (providers registration1)
   \<and> fst (registerProvider provider1 ''ext.b'' registration1) = Inl (ProviderAlreadyExists ''p1'')
   \<and> registeredList (snd (registerProvider provider1 ''ext.b'' registration1))
       = [\<lparr>extensionId = ''ext.a'', providerId = ''p1''\<rparr>]
   \<and> onProvidersChangedFired (snd (registerProvider provider1 ''ext.b'' registration1)) = 1"
  using registerProvider_atomic_on_failure [of provider1 registration1 "''ext.b''"]
  by (simp add: registration1_fields provider1_simps Map_has_def)

section \<open>Which errors reach a caller\<close>

lemma fst_wrapper_getServerUri [simp]:
  "fst (wrapper_getServerUri w handle st) = getServerUri (provider w) handle"
  by (simp add: wrapper_getServerUri_def split: sum.splits)

lemma loaded_wrapper_getServerUri [simp]:
  "loadedOtherExtensionsPromise (snd (wrapper_getServerUri w handle st))
     = loadedOtherExtensionsPromise st"
  by (simp add: wrapper_getServerUri_def split: sum.splits)

lemma loadOtherExtensions_fulfilled:
  "loadedOtherExtensionsPromise st \<noteq> Some Rejected \<Longrightarrow> fst (loadOtherExtensions st) = Fulfilled"
  by (cases "fst (loadOtherExtensions st)") (simp_all add: loadOtherExtensions_rejected)

lemma loadOtherExtensions_keeps:
  "loadedOtherExtensionsPromise st \<noteq> Some Rejected \<Longrightarrow>
   loadedOtherExtensionsPromise (snd (loadOtherExtensions st)) \<noteq> Some Rejected"
  by (auto simp: loadOtherExtensions_cases split: option.splits)

lemma getJupyterServerUri_rejects:
  assumes "loadedOtherExtensionsPromise st \<noteq> Some Rejected"
  shows "(fst (getJupyterServerUri pid handle st) = Inl err) =
     ((Map_get (providers (snd (loadOtherExtensions st))) pid = None \<and> err = UnknownServerUri)
      \<or> (\<exists>w. Map_get (providers (snd (loadOtherExtensions st))) pid = Some w \<and>
            (getHandles (provider w) = Some (Inl err)
             \<or> (\<exists>hs. getHandles (provider w) = Some (Inr hs) \<and> handle \<notin> set hs
                   \<and> err = InvalidRemoteJupyterServerUriHandleError pid handle
                             (Map_get (providerExtensionMapping (snd (loadOtherExtensions st))) pid))
             \<or> ((getHandles (provider w) = None
                   \<or> (\<exists>hs. getHandles (provider w) = Some (Inr hs) \<and> handle \<in> set hs))
                 \<and> getServerUri (provider w) handle = Inl err))))"
  using loadOtherExtensions_fulfilled [OF assms]
  by (auto simp: getJupyterServerUri_def Let_def split: option.splits sum.splits)

lemma getJupyterServerUri_traces:
  assumes "loadedOtherExtensionsPromise st \<noteq> Some Rejected"
    and "Map_get (providers (snd (loadOtherExtensions st))) pid = None"
  shows "tracedErrors (snd (getJupyterServerUri pid handle st))
     = tracedErrors (snd (loadOtherExtensions st)) @ [(pid, handle)]"
  using loadOtherExtensions_fulfilled [OF assms(1)] assms(2)
  by (simp add: getJupyterServerUri_def Let_def)

lemma load_promise_kept:
  assumes "loadedOtherExtensionsPromise st \<noteq> Some Rejected"
  shows "loadedOtherExtensionsPromise (snd (registerProvider p eid st)) \<noteq> Some Rejected"
    and "loadedOtherExtensionsPromise (snd (getProvider pid st)) \<noteq> Some Rejected"
    and "loadedOtherExtensionsPromise (snd (getProviders st)) \<noteq> Some Rejected"
    and "loadedOtherExtensionsPromise (snd (getJupyterServerUri pid handle st)) \<noteq> Some Rejected"
proof -
  note ok = loadOtherExtensions_fulfilled [OF assms] loadOtherExtensions_keeps [OF assms]
  show "loadedOtherExtensionsPromise (snd (registerProvider p eid st)) \<noteq> Some Rejected"
    using assms
    by (simp add: registerProvider_def updateRegistrationInfo_def Let_def
        loadExistingProviderExtensionMapping_def)
  show "loadedOtherExtensionsPromise (snd (getProvider pid st)) \<noteq> Some Rejected"
    using ok by (simp add: getProvider_def Let_def)
  show "loadedOtherExtensionsPromise (snd (getProviders st)) \<noteq> Some Rejected"
    using ok by (simp add: getProviders_def get_providers_def Let_def loadOtherExtensions_once)
  show "loadedOtherExtensionsPromise (snd (getJupyterServerUri pid handle st)) \<noteq> Some Rejected"
    using ok by (simp add: getJupyterServerUri_def Let_def split: option.splits sum.splits)
qed

lemma wrapper_rejects:
  "(wrapper_getHandles w = Some (Inl err)) = (getHandles (provider w) = Some (Inl err))"
  "(\<exists>remove. wrapper_removeHandle w = Some remove \<and> remove handle = Inl err)
     = (\<exists>remove. removeHandle (provider w) = Some remove \<and> remove handle = Inl err)"
  "(wrapper_getQuickPickEntryItems format w = Inl err)
     = (getQuickPickEntryItems (provider w) = Some (Inl err))"
  "(wrapper_handleQuickPick w item back = Inl err)
     = (\<exists>handle. handleQuickPick (provider w) = Some handle
          \<and> handle (case original item of None \<Rightarrow> item | Some q \<Rightarrow> q) back = Inl err)"
  by (auto simp: wrapper_getHandles_def wrapper_removeHandle_def
      wrapper_getQuickPickEntryItems_def wrapper_handleQuickPick_def
      split: option.splits sum.splits)

text \<open>
  C5, as the code has it: which operations pass an error to their caller, and when. In a
  registry whose load promise is not rejected (the load step fulfils it, and every operation
  keeps it so), \<open>registerProvider\<close> throws exactly when the provider id is already registered,
  and \<open>getJupyterServerUri\<close> rejects exactly when the provider id is unknown (which it logs),
  when the provider's \<open>getHandles\<close> rejects or does not list the handle, or when the
  provider's \<open>getServerUri\<close> rejects. Each operation of a wrapper, \<open>getHandles\<close>,
  \<open>removeHandle\<close>, \<open>getServerUri\<close>, \<open>getQuickPickEntryItems\<close> and \<open>handleQuickPick\<close>, rejects
  exactly when the provider's own member of that name does, with the provider's error. A
  rejected memento update or activation reaches no caller: \<open>registerProvider\<close> succeeds for a
  new id however the update settles, the promise of the load step is fulfilled, and
  \<open>getProvider\<close> and \<open>getProviders\<close> return a result. The callbacks queued by
  \<open>trackLastExecution\<close> and \<open>onDidRemoveServerUris\<close> do not throw.
\<close>

theorem errors_reaching_the_caller:
  assumes "loadedOtherExtensionsPromise st \<noteq> Some Rejected"
  shows "((\<exists>err. fst (registerProvider p eid st) = Inl err)
            = Map_has (provider_id p) (providers st))
   \<and> ((fst (getJupyterServerUri pid handle st) = Inl err) =
     ((Map_get (providers (snd (loadOtherExtensions st))) pid = None \<and> err = UnknownServerUri)
      \<or> (\<exists>w. Map_get (providers (snd (loadOtherExtensions st))) pid = Some w \<and>
            (getHandles (provider w) = Some (Inl err)
             \<or> (\<exists>hs. getHandles (provider w) = Some (Inr hs) \<and> handle \<notin> set hs
                   \<and> err = InvalidRemoteJupyterServerUriHandleError pid handle
                             (Map_get (providerExtensionMapping (snd (loadOtherExtensions st))) pid))
             \<or> ((getHandles (provider w) = None
                   \<or> (\<exists>hs. getHandles (provider w) = Some (Inr hs) \<and> handle \<in> set hs))
                 \<and> getServerUri (provider w) handle = Inl err)))))
   \<and> (Map_get (providers (snd (loadOtherExtensions st))) pid = None \<longrightarrow>
        tracedErrors (snd (getJupyterServerUri pid handle st))
          = tracedErrors (snd (loadOtherExtensions st)) @ [(pid, handle)])
   \<and> ((wrapper_getHandles wr = Some (Inl err)) = (getHandles (provider wr) = Some (Inl err)))
   \<and> ((\<exists>remove. wrapper_removeHandle wr = Some remove \<and> remove handle = Inl err)
        = (\<exists>remove. removeHandle (provider wr) = Some remove \<and> remove handle = Inl err))
   \<and> ((fst (wrapper_getServerUri wr handle st) = Inl err)
        = (getServerUri (provider wr) handle = Inl err))
   \<and> ((wrapper_getQuickPickEntryItems format wr = Inl err)
        = (getQuickPickEntryItems (provider wr) = Some (Inl err)))
   \<and> ((wrapper_handleQuickPick wr item back = Inl err)
        = (\<exists>handle. handleQuickPick (provider wr) = Some handle
             \<and> handle (case original item of None \<Rightarrow> item | Some q \<Rightarrow> q) back = Inl err))
   \<and> fst (loadOtherExtensionsImpl st) = Fulfilled
   \<and> fst (loadOtherExtensions st) = Fulfilled
   \<and> (\<exists>w. fst (getProvider pid st) = Inr w)
   \<and> (\<exists>ws. fst (getProviders st) = Inr ws)
   \<and> loadedOtherExtensionsPromise (snd (registerProvider p eid st)) \<noteq> Some Rejected
   \<and> loadedOtherExtensionsPromise (snd (getProvider pid st)) \<noteq> Some Rejected
   \<and> loadedOtherExtensionsPromise (snd (getProviders st)) \<noteq> Some Rejected
   \<and> loadedOtherExtensionsPromise (snd (getJupyterServerUri pid handle st)) \<noteq> Some Rejected
   \<and> loadedOtherExtensionsPromise (snd (wrapper_getServerUri wr handle st)) \<noteq> Some Rejected
   \<and> \<not> threw (run_task (TrackTask key cell info) m)
   \<and> \<not> threw (run_task (RemoveTask keys) m)"
proof -
  note ok = loadOtherExtensions_fulfilled [OF assms]
  have reg: "(\<exists>err. fst (registerProvider p eid st) = Inl err)
               = Map_has (provider_id p) (providers st)"
    by (simp add: registerProvider_def Let_def)
  have get1: "\<exists>w. fst (getProvider pid st) = Inr w"
    using ok by (simp add: getProvider_def Let_def)
  have get2: "\<exists>ws. fst (getProviders st) = Inr ws"
    using ok by (simp add: getProviders_def Let_def)
  have run: "\<not> threw (run_task (TrackTask key cell info) m)"
    "\<not> threw (run_task (RemoveTask keys) m)"
    by (simp_all add: run_track_def run_remove_def Let_def)
  have wrapped: "(fst (wrapper_getServerUri wr handle st) = Inl err)
        = (getServerUri (provider wr) handle = Inl err)"
    "loadedOtherExtensionsPromise (snd (wrapper_getServerUri wr handle st)) \<noteq> Some Rejected"
    using assms by simp_all
  note rest = reg get1 get2 run ok loadOtherExtensionsImpl_fulfilled [of st]
    getJupyterServerUri_rejects [OF assms, of pid handle err]
    getJupyterServerUri_traces [OF assms, of pid handle]
    load_promise_kept [OF assms] wrapped
    wrapper_rejects(1)[of wr err] wrapper_rejects(2)[of wr handle err]
    wrapper_rejects(3)[of "format" wr err] wrapper_rejects(4)
  show ?thesis
    by (intro conjI impI) (rule rest | use rest in blast)+
qed

lemma getJupyterServerUri1:
  "fst (getJupyterServerUri ''p1'' ''h2'' registration1)
       = Inl (InvalidRemoteJupyterServerUriHandleError ''p1'' ''h2'' (Some ''ext.a''))"
  "fst (getJupyterServerUri ''p1'' ''h1'' registration1) = Inr server1"
  "fst (getJupyterServerUri ''p2'' ''h1'' registration1) = Inl UnknownServerUri"
  "tracedErrors (snd (getJupyterServerUri ''p2'' ''h1'' registration1)) = [(''p2'', ''h1'')]"
  by (simp_all add: getJupyterServerUri_def loaded1 Let_def registration1_fields Map_get_def
      provider1_simps)

lemma wrapper1_simps:
  "provider wrapper1 = provider1"
  "removeHandle provider1 = Some (\<lambda>h. if h = ''h1'' then Inr () else Inl (ProviderFailed h))"
  "wrapper_removeHandle wrapper1
     = Some (\<lambda>h. if h = ''h1'' then Inr () else Inl (ProviderFailed h))"
  "wrapper_handleQuickPick wrapper1 wrappedItem1 False = Inr (Some ''h1'')"
  "wrapper_handleQuickPick wrapper1 (QuickPickItem ''Other'' None None) False
     = Inl (ProviderFailed ''Other'')"
  "wrapper_getQuickPickEntryItems (\<lambda>d e. d @ '' - '' @ e) wrapper1 = Inr [wrappedItem1]"
  by (simp_all add: wrapper1_def provider1_def wrappedItem1_def item1_def
      wrapper_removeHandle_def wrapper_handleQuickPick_def wrapper_getQuickPickEntryItems_def)

text \<open>C5, on \<open>registration1\<close> and the wrapper of its provider: a second registration of \<open>p1\<close>
  throws, the unlisted handle \<open>h2\<close> is rejected, the unknown provider \<open>p2\<close> is logged,
  \<open>getProvider\<close> returns although the activation of \<open>ext.a\<close> is rejected, and the wrapper
  rejects with the provider's error when the provider's \<open>removeHandle\<close> or \<open>handleQuickPick\<close>
  does.\<close>

theorem errors_reaching_the_caller_witness:
  "loadedOtherExtensionsPromise registration1 = None
   \<and> (\<exists>err. fst (registerProvider provider1 ''ext.b'' registration1) = Inl err)
   \<and> fst (getJupyterServerUri ''p1'' ''h2'' registration1)
       = Inl (InvalidRemoteJupyterServerUriHandleError ''p1'' ''h2'' (Some ''ext.a''))
   \<and> tracedErrors (snd (getJupyterServerUri ''p2'' ''h1'' registration1)) = [(''p2'', ''h1'')]
   \<and> (\<exists>w. fst (getProvider ''p1'' registration1) = Inr w)
   \<and> (\<exists>remove. wrapper_removeHandle wrapper1 = Some remove
          \<and> remove ''h2'' = Inl (ProviderFailed ''h2''))
   \<and> wrapper_handleQuickPick wrapper1 (QuickPickItem ''Other'' None None) False
       = Inl (ProviderFailed ''Other'')"
  using errors_reaching_the_caller [of registration1 provider1 "''ext.b''" "''p1''" "''h2''"
      "InvalidRemoteJupyterServerUriHandleError ''p1'' ''h2'' (Some ''ext.a'')"]
    errors_reaching_the_caller [of registration1 provider1 "''ext.b''" "''p2''" "''h1''"]
    errors_reaching_the_caller [of registration1 provider1 "''ext.b''" "''p1''" "''h2''"
      "ProviderFailed ''h2''" wrapper1]
    errors_reaching_the_caller [of registration1 provider1 "''ext.b''" "''p1''" "''h2''"
      "ProviderFailed ''Other''" wrapper1 _ "QuickPickItem ''Other'' None None" False]
  by (simp add: registration1_fields provider1_simps Map_has_def getJupyterServerUri1
      wrapper1_simps)

text \<open>
  C5 as the claim words it (no public operation propagates an error to its caller) fails:
  \<open>registerProvider\<close> throws to its caller for an id that is registered, and
  \<open>getJupyterServerUri\<close> rejects for an id that is not.
\<close>

theorem errors_propagate_counterexample:
  "fst (registerProvider provider1 ''ext.b'' registration1) = Inl (ProviderAlreadyExists ''p1'')
   \<and> fst (getJupyterServerUri ''p2'' ''h1'' registration1) = Inl UnknownServerUri"
  by (simp add: registerProvider_def registration1_fields provider1_simps Map_has_def
      getJupyterServerUri1)

section \<open>Writes are serialized by the promise chain\<close>

text \<open>Every callback waits for each update it issues, and one that throws has issued none.\<close>

lemma issued_awaited: "issued (run_task t m) = awaited (run_task t m)"
  by (cases t) (simp_all add: run_delete_def run_track_def run_remove_def Let_def
      split: option.splits)

lemma threw_nothing_issued: "threw (run_task t m) \<Longrightarrow> issued (run_task t m) = []"
  by (cases t) (simp_all add: run_delete_def run_track_def run_remove_def Let_def
      split: option.splits if_splits)

lemma remove1_Pair: "remove1 (j, key) (map (Pair j) ks) = map (Pair j) (remove1 key ks)"
  by (induction ks) auto

lemma chain_okD:
  assumes "chain_ok c"
  shows "chainedPromise c = length (chained c)"
    and "j < length (chained c) \<Longrightarrow> attachedTo (chained c ! j) = j"
    and "j < length (chained c) \<Longrightarrow> phase (chained c ! j) \<noteq> Pending \<Longrightarrow> i < j
           \<Longrightarrow> phase (chained c ! i) = Done"
    and "j < length (chained c) \<Longrightarrow> phase (chained c ! j) = Running ks
           \<Longrightarrow> inflight c = map (Pair j) ks \<and> ks \<noteq> []"
    and "(\<And>k ks. k < length (chained c) \<Longrightarrow> phase (chained c ! k) \<noteq> Running ks)
           \<Longrightarrow> inflight c = []"
  using assms unfolding chain_ok_def by blast+

lemma chain_ok_initial: "chain_ok (initial m)"
  by (simp add: chain_ok_def initial_def)

lemma chain_ok_chains:
  assumes "chain_ok c"
  shows "chain_ok (chain_finally t c)"
  using assms
  by (auto simp: chain_ok_def chain_finally_def nth_append less_Suc_eq)

text \<open>In a well-formed chain a callback that may start has every earlier one through and
  nothing in flight.\<close>

lemma may_start:
  assumes ok: "chain_ok c" and j: "j < length (chained c)"
    and pend: "phase (chained c ! j) = Pending"
    and pred: "settled c (attachedTo (chained c ! j))"
  shows "(\<forall>i < j. phase (chained c ! i) = Done) \<and> inflight c = []"
proof -
  from ok j have att: "attachedTo (chained c ! j) = j" by (simp add: chain_ok_def)
  have before: "\<forall>i < j. phase (chained c ! i) = Done"
  proof (cases j)
    case 0
    then show ?thesis by simp
  next
    case (Suc k)
    with pred att have k: "phase (chained c ! k) = Done" by simp
    from Suc j have "k < length (chained c)" by simp
    with ok k have "\<forall>i < k. phase (chained c ! i) = Done" by (simp add: chain_ok_def)
    with k Suc show ?thesis by (auto simp: less_Suc_eq)
  qed
  have none: "phase (chained c ! k) \<noteq> Running ks" if "k < length (chained c)" for k ks
  proof
    assume run: "phase (chained c ! k) = Running ks"
    consider "k < j" | "k = j" | "j < k" by linarith
    then show False
    proof cases
      case 1
      with before run show False by simp
    next
      case 2
      with pend run show False by simp
    next
      case 3
      from ok that run have "\<forall>i < k. phase (chained c ! i) = Done" by (simp add: chain_ok_def)
      with 3 pend show False by simp
    qed
  qed
  with ok have "inflight c = []" by (simp add: chain_ok_def)
  with before show ?thesis by simp
qed

lemma start_simps:
  "length (chained (start j c)) = length (chained c)"
  "chainedPromise (start j c) = chainedPromise c"
  "k \<noteq> j \<Longrightarrow> chained (start j c) ! k = chained c ! k"
  "j < length (chained c) \<Longrightarrow>
     attachedTo (chained (start j c) ! j) = attachedTo (chained c ! j)"
  "j < length (chained c) \<Longrightarrow>
     phase (chained (start j c) ! j)
       = (if threw (run_task (callback (chained c ! j)) (memento c))
             \<or> awaited (run_task (callback (chained c ! j)) (memento c)) = []
          then Done else Running (awaited (run_task (callback (chained c ! j)) (memento c))))"
  "inflight (start j c)
     = inflight c @ map (Pair j) (issued (run_task (callback (chained c ! j)) (memento c)))"
  by (simp_all add: start_def Let_def)

lemma chain_ok_starts:
  assumes ok: "chain_ok c" and j: "j < length (chained c)"
    and pend: "phase (chained c ! j) = Pending"
    and pred: "settled c (attachedTo (chained c ! j))"
  shows "chain_ok (start j c)"
proof -
  let ?out = "run_task (callback (chained c ! j)) (memento c)"
  from may_start [OF assms]
  have before: "\<forall>i < j. phase (chained c ! i) = Done" and idle: "inflight c = []" by simp_all
  have quiet: "phase (chained c ! k) \<noteq> Running ks"
    if "k < length (chained c)" for k ks
    using chain_okD(4) [OF ok that, of ks] idle by auto
  have later: "phase (chained c ! k) = Pending"
    if "j < k" "k < length (chained c)" for k
  proof (rule ccontr)
    assume "phase (chained c ! k) \<noteq> Pending"
    from chain_okD(3) [OF ok that(2) this that(1)] pend show False by simp
  qed
  have iss: "issued ?out = awaited ?out" by (rule issued_awaited)
  have thr: "threw ?out \<Longrightarrow> awaited ?out = []"
    using threw_nothing_issued [of "callback (chained c ! j)" "memento c"] iss by simp
  have inv1: "chainedPromise (start j c) = length (chained (start j c))"
    using chain_okD(1) [OF ok] by (simp add: start_simps)
  have inv2: "\<forall>k < length (chained (start j c)). attachedTo (chained (start j c) ! k) = k"
  proof (intro allI impI)
    fix k assume "k < length (chained (start j c))"
    then have k: "k < length (chained c)" by (simp add: start_simps)
    show "attachedTo (chained (start j c) ! k) = k"
      using chain_okD(2) [OF ok k] start_simps(3) [of k j c] start_simps(4) [OF j]
      by (cases "k = j") simp_all
  qed
  have inv3: "\<forall>k < length (chained (start j c)). phase (chained (start j c) ! k) \<noteq> Pending
                \<longrightarrow> (\<forall>i < k. phase (chained (start j c) ! i) = Done)"
  proof (intro allI impI)
    fix k i
    assume "k < length (chained (start j c))"
      and np: "phase (chained (start j c) ! k) \<noteq> Pending" and i: "i < k"
    then have k: "k < length (chained c)" by (simp add: start_simps)
    have "k \<le> j"
    proof (rule ccontr)
      assume "\<not> k \<le> j"
      then have "j < k" by simp
      from later [OF this k] np \<open>j < k\<close> show False
        by (simp add: start_simps(3))
    qed
    with i have "i < j" by simp
    with before show "phase (chained (start j c) ! i) = Done"
      by (simp add: start_simps(3))
  qed
  have inv4: "\<forall>k < length (chained (start j c)). \<forall>ks.
                phase (chained (start j c) ! k) = Running ks
                \<longrightarrow> inflight (start j c) = map (Pair k) ks \<and> ks \<noteq> []"
  proof (intro allI impI)
    fix k ks
    assume "k < length (chained (start j c))"
      and run: "phase (chained (start j c) ! k) = Running ks"
    then have k: "k < length (chained c)" by (simp add: start_simps)
    have "k = j"
    proof (rule ccontr)
      assume "k \<noteq> j"
      with run have "phase (chained c ! k) = Running ks"
        by (simp add: start_simps(3))
      with quiet [OF k, of ks] show False by simp
    qed
    with run idle iss show "inflight (start j c) = map (Pair k) ks \<and> ks \<noteq> []"
      by (auto simp: start_simps(5) [OF j] start_simps(6) split: if_splits)
  qed
  have inv5: "(\<forall>k < length (chained (start j c)). \<forall>ks.
                 phase (chained (start j c) ! k) \<noteq> Running ks)
              \<longrightarrow> inflight (start j c) = []"
  proof
    assume none: "\<forall>k < length (chained (start j c)). \<forall>ks.
              phase (chained (start j c) ! k) \<noteq> Running ks"
    from j have "j < length (chained (start j c))" by (simp add: start_simps)
    with none have "\<forall>ks. phase (chained (start j c) ! j) \<noteq> Running ks" by blast
    then have "threw ?out \<or> awaited ?out = []"
      by (auto simp: start_simps(5) [OF j] split: if_splits)
    with thr have "awaited ?out = []" by blast
    with idle iss show "inflight (start j c) = []"
      by (simp add: start_simps(6))
  qed
  from inv1 inv2 inv3 inv4 inv5 show ?thesis
    unfolding chain_ok_def by (intro conjI)
qed

lemma settle_update_simps:
  "length (chained (settle_update j key c)) = length (chained c)"
  "chainedPromise (settle_update j key c) = chainedPromise c"
  "k \<noteq> j \<Longrightarrow> chained (settle_update j key c) ! k = chained c ! k"
  "j < length (chained c) \<Longrightarrow>
     attachedTo (chained (settle_update j key c) ! j) = attachedTo (chained c ! j)"
  "j < length (chained c) \<Longrightarrow> phase (chained c ! j) = Running ks \<Longrightarrow>
     phase (chained (settle_update j key c) ! j)
       = (if remove1 key ks = [] then Done else Running (remove1 key ks))"
  "inflight (settle_update j key c) = remove1 (j, key) (inflight c)"
  by (simp_all add: settle_update_def Let_def)

text \<open>An update in flight belongs to the callback that is running, which waits for it.\<close>

lemma inflight_running:
  assumes ok: "chain_ok c" and fl: "(j, key) \<in> set (inflight c)"
  shows "j < length (chained c) \<and>
         (\<exists>ks. phase (chained c ! j) = Running ks \<and> key \<in> set ks
            \<and> inflight c = map (Pair j) ks)"
proof -
  from fl have "inflight c \<noteq> []" by auto
  with chain_okD(5) [OF ok]
  obtain k ks where k: "k < length (chained c)" and run: "phase (chained c ! k) = Running ks"
    by blast
  from chain_okD(4) [OF ok k run] have eq: "inflight c = map (Pair k) ks" by simp
  with fl have "j = k" "key \<in> set ks" by auto
  with k run eq show ?thesis by simp
qed

lemma chain_ok_settles:
  assumes ok: "chain_ok c" and fl: "(j, key) \<in> set (inflight c)"
  shows "chain_ok (settle_update j key c)"
proof -
  let ?c = "settle_update j key c"
  from inflight_running [OF assms]
  obtain ks where j: "j < length (chained c)" and run: "phase (chained c ! j) = Running ks"
    and key: "key \<in> set ks" and eq: "inflight c = map (Pair j) ks"
    by blast
  have fl': "inflight ?c = map (Pair j) (remove1 key ks)"
    by (simp add: settle_update_simps(6) eq remove1_Pair)
  note ph = settle_update_simps(5) [OF j run, of key]
  have others: "phase (chained c ! k) \<noteq> Running ks'"
    if "k < length (chained c)" "k \<noteq> j" for k ks'
  proof
    assume "phase (chained c ! k) = Running ks'"
    from chain_okD(4) [OF ok that(1) this] eq key that(2) show False
      by (cases ks) auto
  qed
  have inv1: "chainedPromise ?c = length (chained ?c)"
    using chain_okD(1) [OF ok] by (simp add: settle_update_simps)
  have inv2: "\<forall>k < length (chained ?c). attachedTo (chained ?c ! k) = k"
  proof (intro allI impI)
    fix k assume "k < length (chained ?c)"
    then have k: "k < length (chained c)" by (simp add: settle_update_simps)
    show "attachedTo (chained ?c ! k) = k"
      using chain_okD(2) [OF ok k] settle_update_simps(3) [of k j key c]
        settle_update_simps(4) [OF j, of key]
      by (cases "k = j") simp_all
  qed
  have inv3: "\<forall>k < length (chained ?c). phase (chained ?c ! k) \<noteq> Pending
                \<longrightarrow> (\<forall>i < k. phase (chained ?c ! i) = Done)"
  proof (intro allI impI)
    fix k i
    assume "k < length (chained ?c)" and np: "phase (chained ?c ! k) \<noteq> Pending" and i: "i < k"
    then have k: "k < length (chained c)" by (simp add: settle_update_simps)
    have np': "phase (chained c ! k) \<noteq> Pending"
      using np run settle_update_simps(3) [of k j key c] by (cases "k = j") auto
    from chain_okD(3) [OF ok k np' i] have d: "phase (chained c ! i) = Done" .
    with run have "i \<noteq> j" by auto
    with d show "phase (chained ?c ! i) = Done" by (simp add: settle_update_simps(3))
  qed
  have inv4: "\<forall>k < length (chained ?c). \<forall>ks'. phase (chained ?c ! k) = Running ks'
                \<longrightarrow> inflight ?c = map (Pair k) ks' \<and> ks' \<noteq> []"
  proof (intro allI impI)
    fix k ks'
    assume "k < length (chained ?c)" and r: "phase (chained ?c ! k) = Running ks'"
    then have k: "k < length (chained c)" by (simp add: settle_update_simps)
    have "k = j"
    proof (rule ccontr)
      assume "k \<noteq> j"
      with r have "phase (chained c ! k) = Running ks'" by (simp add: settle_update_simps(3))
      with others [OF k \<open>k \<noteq> j\<close>, of ks'] show False by simp
    qed
    with r ph fl' show "inflight ?c = map (Pair k) ks' \<and> ks' \<noteq> []"
      by (auto split: if_splits)
  qed
  have inv5: "(\<forall>k < length (chained ?c). \<forall>ks'. phase (chained ?c ! k) \<noteq> Running ks')
                \<longrightarrow> inflight ?c = []"
  proof
    assume none: "\<forall>k < length (chained ?c). \<forall>ks'. phase (chained ?c ! k) \<noteq> Running ks'"
    from j have "j < length (chained ?c)" by (simp add: settle_update_simps)
    with none have "\<forall>ks'. phase (chained ?c ! j) \<noteq> Running ks'" by blast
    with ph have "remove1 key ks = []" by (auto split: if_splits)
    with fl' show "inflight ?c = []" by simp
  qed
  from inv1 inv2 inv3 inv4 inv5 show ?thesis
    unfolding chain_ok_def by (intro conjI)
qed

lemma chain_ok_step: "step c c' \<Longrightarrow> chain_ok c \<Longrightarrow> chain_ok c'"
  by (induction rule: step.induct)
    (simp_all add: chain_ok_chains chain_ok_starts chain_ok_settles)

lemma chain_ok_reachable: "reachable c \<Longrightarrow> chain_ok c"
  by (induction rule: reachable.induct) (simp_all add: chain_ok_initial chain_ok_step)

lemma pending_chain_finally: "pending (chain_finally t c) = pending c @ [t]"
  by (simp add: pending_def chain_finally_def)

lemma filter_first_updated:
  assumes "j < length xs" and "\<forall>i < j. \<not> P (xs ! i)" and "P (xs ! j)" and "\<not> P y"
  shows "filter P xs = xs ! j # filter P (xs[j := y])"
  using assms
proof (induction xs arbitrary: j)
  case Nil
  then show ?case by simp
next
  case (Cons x xs)
  show ?case
  proof (cases j)
    case 0
    with Cons.prems show ?thesis by simp
  next
    case (Suc k)
    with Cons.prems have "\<not> P x" by auto
    moreover from Suc Cons.prems have "k < length xs" "P (xs ! k)" by simp_all
    moreover from Suc Cons.prems have "\<forall>i < k. \<not> P (xs ! i)" by auto
    ultimately show ?thesis
      using Cons.IH [of k] Cons.prems(4) Suc by simp
  qed
qed

lemma oldest_starts:
  assumes ok: "chain_ok c" and j: "j < length (chained c)"
    and pend: "phase (chained c ! j) = Pending"
    and pred: "settled c (attachedTo (chained c ! j))"
  shows "pending c = callback (chained c ! j) # pending (start j c)"
    and "memento (start j c) = after (run_task (callback (chained c ! j)) (memento c))"
proof -
  let ?P = "\<lambda>cb. phase cb = Pending"
  from may_start [OF assms] have "\<forall>i < j. \<not> ?P (chained c ! i)" by simp
  moreover obtain y where y: "chained (start j c) = (chained c)[j := y]" "\<not> ?P y"
    by (simp add: start_def Let_def)
  ultimately have "filter ?P (chained c) = chained c ! j # filter ?P (chained (start j c))"
    using filter_first_updated [where P = ?P, OF j _ pend] by simp
  then show "pending c = callback (chained c ! j) # pending (start j c)"
    by (simp add: pending_def)
  show "memento (start j c) = after (run_task (callback (chained c ! j)) (memento c))"
    by (simp add: start_def Let_def)
qed

lemma writers_keep_memento:
  "workspaceMemento (trackLastExecution cell k info s) = workspaceMemento s"
  "workspaceMemento (deleteTrackedCellExecution cell k s) = workspaceMemento s"
  "workspaceMemento (onDidRemoveServerUris removed s) = workspaceMemento s"
  by (simp_all add: trackLastExecution_def deleteTrackedCellExecution_def
      onDidRemoveServerUris_def chain_def)

lemma writers_only_chain:
  "trackLastExecution cell k info s = s
   \<or> (\<exists>key. trackLastExecution cell k info s = chain (TrackTask key cell info) s)"
  "deleteTrackedCellExecution cell k s = s
   \<or> (\<exists>key. deleteTrackedCellExecution cell k s = chain (DeleteTask key cell) s)"
  "\<exists>keys. onDidRemoveServerUris removed s = chain (RemoveTask keys) s"
  by (auto simp: trackLastExecution_def deleteTrackedCellExecution_def
      onDidRemoveServerUris_def)

text \<open>
  C2. In every state the promise chain can reach: when a callback has begun, every callback
  chained before it is through and none of their updates is still in flight; when a callback
  may begin, nothing is in flight at all and it is the oldest one that has not run. The three
  writers do nothing to the memento but chain one callback each (or none, by their guards),
  so every write to the memento happens inside such a callback, and no two read-modify-write
  cycles overlap.
\<close>

theorem writes_are_serialized:
  assumes "reachable c"
  shows "(\<forall>i j. i < j \<and> j < length (chained c) \<and> phase (chained c ! j) \<noteq> Pending
            \<longrightarrow> phase (chained c ! i) = Done \<and> (\<forall>key. (i, key) \<notin> set (inflight c)))
         \<and> (\<forall>j. j < length (chained c) \<and> phase (chained c ! j) = Pending
                 \<and> settled c (attachedTo (chained c ! j))
            \<longrightarrow> inflight c = [] \<and> (\<forall>i < j. phase (chained c ! i) = Done)
                \<and> pending c = callback (chained c ! j) # pending (start j c))
         \<and> (trackLastExecution cell k info s = s
             \<or> (\<exists>key. trackLastExecution cell k info s = chain (TrackTask key cell info) s))
         \<and> (deleteTrackedCellExecution cell k s = s
             \<or> (\<exists>key. deleteTrackedCellExecution cell k s = chain (DeleteTask key cell) s))
         \<and> (\<exists>keys. onDidRemoveServerUris removed s = chain (RemoveTask keys) s)
         \<and> workspaceMemento (chain t s) = workspaceMemento s"
proof -
  note ok = chain_ok_reachable [OF assms]
  have one: "phase (chained c ! i) = Done \<and> (\<forall>key. (i, key) \<notin> set (inflight c))"
    if a: "i < j \<and> j < length (chained c) \<and> phase (chained c ! j) \<noteq> Pending" for i j
  proof -
    from a have d: "phase (chained c ! i) = Done"
      using chain_okD(3) [OF ok, of j i] by simp
    have "(i, key) \<notin> set (inflight c)" for key
    proof
      assume "(i, key) \<in> set (inflight c)"
      from inflight_running [OF ok this] d show False by auto
    qed
    with d show ?thesis by simp
  qed
  have two: "inflight c = [] \<and> (\<forall>i < j. phase (chained c ! i) = Done)
               \<and> pending c = callback (chained c ! j) # pending (start j c)"
    if a: "j < length (chained c) \<and> phase (chained c ! j) = Pending
             \<and> settled c (attachedTo (chained c ! j))" for j
    using may_start [OF ok, of j] oldest_starts(1) [OF ok, of j] a by simp
  have "workspaceMemento (chain t s) = workspaceMemento s"
    by (simp add: chain_def)
  with one two writers_only_chain(1) [of cell k info s] writers_only_chain(2) [of cell k s]
    writers_only_chain(3) [of removed s]
  show ?thesis by blast
qed

lemma exampleChain_eq:
  "exampleChain = \<lparr>memento = [getStateKey ''srv'' \<mapsto> Map.empty], chainedPromise = 2,
     chained = [\<lparr>callback = TrackTask (getStateKey ''srv'') cell1 record1, attachedTo = 0,
                 phase = Done\<rparr>,
                \<lparr>callback = DeleteTask (getStateKey ''srv'') cell1, attachedTo = 1,
                 phase = Running [getStateKey ''srv'']\<rparr>],
     inflight = [(1, getStateKey ''srv'')]\<rparr>"
  by (simp add: exampleChain_def start_def settle_update_def chain_finally_def initial_def
      run_track_def run_delete_def Memento_get_def Memento_update_def Let_def
      cell1_def notebook1_def record1_def)

lemma exampleChain_reachable: "reachable exampleChain"
proof -
  let ?key = "getStateKey ''srv''"
  let ?c2 = "chain_finally (DeleteTask ?key cell1)
               (chain_finally (TrackTask ?key cell1 record1) (initial Map.empty))"
  have "reachable ?c2"
    by (intro reachable.next_step [OF _ step.chains] reachable.init)
  moreover have "step ?c2 (start 0 ?c2)"
    by (rule step.starts) (simp_all add: chain_finally_def initial_def)
  ultimately have r3: "reachable (start 0 ?c2)" by (rule reachable.next_step)
  have "step (start 0 ?c2) (settle_update 0 ?key (start 0 ?c2))"
    by (rule step.settles)
      (simp add: start_def chain_finally_def initial_def run_track_def Let_def)
  with r3 have r4: "reachable (settle_update 0 ?key (start 0 ?c2))"
    by (rule reachable.next_step)
  have "step (settle_update 0 ?key (start 0 ?c2))
          (start 1 (settle_update 0 ?key (start 0 ?c2)))"
    by (rule step.starts)
      (simp_all add: settle_update_def start_def chain_finally_def initial_def
        run_track_def Let_def)
  with r4 show ?thesis
    unfolding exampleChain_def by (rule reachable.next_step)
qed

text \<open>In the chain at work the delete has begun: the write before it is through, and the
  only update in flight is the delete's own.\<close>

theorem writes_are_serialized_witness:
  "reachable exampleChain
   \<and> phase (chained exampleChain ! 1) = Running [getStateKey ''srv'']
   \<and> phase (chained exampleChain ! 0) = Done
   \<and> inflight exampleChain = [(1, getStateKey ''srv'')]"
  using writes_are_serialized [OF exampleChain_reachable]
  by (intro conjI exampleChain_reachable) (simp_all add: exampleChain_eq)

end
